theory Spec2Isabelle
  imports Main
begin

section \<open>The stamina command (cogs/tibia.py, \<open>Tibia.stamina\<close>)\<close>

text \<open>
  The command matches its argument against the pattern \<^verbatim>\<open>(\d{1,2}):(\d{1,2})\<close>.
  The model starts from the outcome of that match: \<open>None\<close> when the pattern does
  not match, \<open>Some (hours, minutes)\<close> for the two groups read with \<^verbatim>\<open>int\<close>
  (groups of digits, hence natural numbers).

  Durations are \<^verbatim>\<open>datetime.timedelta\<close> values in the source; the model holds them
  as whole seconds. \<^verbatim>\<open>total_seconds()\<close> returns a float, but every value that
  occurs is a whole number of seconds below \<open>2^53\<close>, so the float arithmetic of the
  source is exact and \<^verbatim>\<open>int(resting_time)\<close> truncates nothing.
\<close>

text \<open>\<^verbatim>\<open>dt.timedelta(hours=h, minutes=m).total_seconds()\<close>\<close>

definition timedelta :: "int \<Rightarrow> int \<Rightarrow> int" where
  "timedelta h m = h * 3600 + m * 60"

text \<open>The text put into the reply: \<^verbatim>\<open>'{hours} hours and {minutes} minutes'\<close> when
  \<^verbatim>\<open>hours\<close> is not zero, \<^verbatim>\<open>'{minutes} minutes'\<close> otherwise.\<close>

datatype remaining = HoursAndMinutes int int | MinutesOnly int

datatype stamina_msg =
    WrongFormat      \<comment> \<open>"You need to tell me your current stamina, in this format: `34:03`."\<close>
  | MinutesInvalid   \<comment> \<open>"Invalid time, minutes can't be 60 or greater."\<close>
  | MoreThan42       \<comment> \<open>"You can't have more than 42 hours of stamina."\<close>
  | FullAlready      \<comment> \<open>"Your stamina is full already."\<close>
  | NeedRest remaining \<comment> \<open>"You need to rest **{remaining}** to get back to full stamina."\<close>

text \<open>What is sent: the plain message, or (with the embed-links permission and only
  on the last path) an embed of the message whose timestamp is now plus the resting
  time in seconds.\<close>

datatype stamina_sent = Plain stamina_msg | Embedded stamina_msg int

text \<open>Lines 1158-1163: the resting time in seconds.\<close>

definition resting_time :: "int \<Rightarrow> int" where
  "resting_time current =
     max (timedelta 40 0 - current) 0 * 3
       + (timedelta 42 0 - max (timedelta 40 0) current) * 10
       + timedelta 0 10"

text \<open>Lines 1165-1170: \<^verbatim>\<open>divmod\<close> by 3600, then by 60.\<close>

definition format_remaining :: "int \<Rightarrow> remaining" where
  "format_remaining rt =
     (let hours = rt div 3600; remainder = rt mod 3600; minutes = remainder div 60
      in if hours \<noteq> 0 then HoursAndMinutes hours minutes else MinutesOnly minutes)"

definition stamina :: "bool \<Rightarrow> (nat \<times> nat) option \<Rightarrow> stamina_sent" where
  "stamina embed_links match =
     (case match of
        None \<Rightarrow> Plain WrongFormat
      | Some (hours, minutes) \<Rightarrow>
          if minutes \<ge> 60 then Plain MinutesInvalid
          else let current = timedelta (int hours) (int minutes) in
            if hours > 42 \<or> (hours = 42 \<and> minutes > 0) then Plain MoreThan42
            else if hours = 42 then Plain FullAlready
            else let rt = resting_time current;
                     reply = NeedRest (format_remaining rt)
                 in if \<not> embed_links then Plain reply else Embedded reply rt)"

text \<open>The message of a reply, whichever way it is sent.\<close>

fun sent_msg :: "stamina_sent \<Rightarrow> stamina_msg" where
  "sent_msg (Plain m) = m"
| "sent_msg (Embedded m _) = m"

text \<open>The replies that reject the input.\<close>

fun invalid_input :: "stamina_msg \<Rightarrow> bool" where
  "invalid_input WrongFormat = True"
| "invalid_input MinutesInvalid = True"
| "invalid_input MoreThan42 = True"
| "invalid_input _ = False"

text \<open>The hours and minutes a reply names (no hours named: zero hours).\<close>

fun remaining_hours :: "remaining \<Rightarrow> int" where
  "remaining_hours (HoursAndMinutes h _) = h"
| "remaining_hours (MinutesOnly _) = 0"

fun remaining_minutes :: "remaining \<Rightarrow> int" where
  "remaining_minutes (HoursAndMinutes _ m) = m"
| "remaining_minutes (MinutesOnly m) = m"

text \<open>
  The specification's words for the time to full stamina, in seconds, for a current
  stamina of \<open>c\<close> seconds: three times the stamina missing below 40:00, ten times the
  stamina missing between 40:00 and 42:00, and ten minutes of settling.
\<close>

definition time_to_full_spec :: "int \<Rightarrow> int" where
  "time_to_full_spec c = 3 * max (144000 - c) 0 + 10 * (151200 - max 144000 c) + 600"


section \<open>Values shared by the commands\<close>

text \<open>
  The exceptions the modelled code raises, catches or lets through, as far as its
  handlers tell them apart. \<open>CancelledError\<close> is \<^verbatim>\<open>asyncio.CancelledError\<close>,
  \<open>Forbidden\<close> and \<open>HTTPException\<close> are discord's (the first a subclass of the
  second, and caught before it), \<open>OtherException\<close> stands for any other instance of
  \<^verbatim>\<open>Exception\<close>. Exits that are not instances of \<^verbatim>\<open>Exception\<close>
  (\<^verbatim>\<open>KeyboardInterrupt\<close>, \<^verbatim>\<open>SystemExit\<close>) are outside the model.
\<close>

datatype exn =
    NetworkError | CancelledError | Forbidden | HTTPException
  | ValueError | FileNotFoundError | IndexError | OtherException

text \<open>A character as \<^verbatim>\<open>get_character\<close> returns it (the fields the commands read).\<close>

record character =
  name :: string
  level :: int
  vocation :: string

section \<open>The share command (\<open>Tibia.share\<close>)\<close>

text \<open>
  \<^verbatim>\<open>get_share_range\<close> lives in \<^verbatim>\<open>utils/tibia.py\<close>; the command takes it as the
  parameter \<open>get_share_range\<close>, a function from a level to the pair (low, high).
  \<^verbatim>\<open>get_character\<close> is the other collaborator: it raises, returns \<^verbatim>\<open>None\<close> or
  returns a character.

  Python's \<^verbatim>\<open>str.lower\<close> (it folds every cased letter of Unicode) is the parameter
  \<open>lower\<close>.

  \<open>share_chars\<close> is the \<^verbatim>\<open>except ValueError\<close> branch (lines 1075-1130): \<^verbatim>\<open>param\<close> is
  not a number, and \<open>chars\<close> is \<^verbatim>\<open>param.split(",")\<close>.
\<close>

datatype share_reply =
    InvalidLevel       \<comment> \<open>one of the five \<^verbatim>\<open>invalid_level\<close> messages, picked at random\<close>
  | LevelRange int int int
      \<comment> \<open>"A level {level} can share experience with levels **{low}** to **{high}**."\<close>
  | TooManyCharacters  \<comment> \<open>"I can only check up to 5 characters at a time."\<close>
  | NoCharacter        \<comment> \<open>"There is no character with that name."\<close>
  | NoCharacterNamed string  \<comment> \<open>"There is no character named **{char}**."\<close>
  | ConnectionIssues   \<comment> \<open>"I'm having connection issues ..."\<close>
  | Uncaught exn       \<comment> \<open>an exception the command does not catch\<close>
  | SingleRange string int int int
      \<comment> \<open>"**{name}** ({level}) can share experience with levels **{low}** to **{high}**."\<close>
  | SharingWithYourself
  | NeedsLevels string int int string int
      \<comment> \<open>"**{lowest_name}** ({lowest_level}) needs {low-lowest_level} more level(s) to share
          experience with **{highest_name}** ({highest_level})."\<close>
  | AllShare int int
      \<comment> \<open>"They can all share experience with each other. Their share range is from level
          **{low}** to **{high}**."\<close>
  | PairShare string int string int int int
      \<comment> \<open>"**{lowest_name}** ({lowest_level}) and **{highest_name}** ({highest_level}) can share
          experience. Their share range is from level **{low}** to **{high}**."\<close>

text \<open>Lines 1100-1109: the characters are fetched in order; the first failure ends
  the command with its reply.\<close>

fun fetch_chars :: "(string \<Rightarrow> exn + character option) \<Rightarrow> string list \<Rightarrow> share_reply + character list"
  where
  "fetch_chars get_character [] = Inr []"
| "fetch_chars get_character (char # chars) =
     (case get_character char of
        Inl e \<Rightarrow> Inl (if e = NetworkError then ConnectionIssues else Uncaught e)
      | Inr None \<Rightarrow> Inl (NoCharacterNamed char)
      | Inr (Some fetched_char) \<Rightarrow>
          (case fetch_chars get_character chars of
             Inl r \<Rightarrow> Inl r
           | Inr char_data \<Rightarrow> Inr (fetched_char # char_data)))"

text \<open>Lines 1110-1130, for the fetched characters. \<^verbatim>\<open>sorted\<close> is stable, as
  \<open>sort_key\<close> is; \<^verbatim>\<open>char_data[0]\<close> and \<^verbatim>\<open>char_data[-1]\<close> raise on an empty list.\<close>

definition share_group :: "(int \<Rightarrow> int \<times> int) \<Rightarrow> nat \<Rightarrow> character list \<Rightarrow> share_reply" where
  "share_group get_share_range n_chars fetched =
     (let char_data = sort_key level fetched in
      if char_data = [] then Uncaught IndexError
      else
        let low = fst (get_share_range (level (last char_data)));
            high = snd (get_share_range (level (hd char_data)));
            lowest_name = name (hd char_data);
            lowest_level = level (hd char_data);
            highest_name = name (last char_data);
            highest_level = level (last char_data)
        in if low > level (hd char_data)
           then NeedsLevels lowest_name lowest_level (low - lowest_level) highest_name highest_level
           else if n_chars > 2 then AllShare low high
           else PairShare lowest_name lowest_level highest_name highest_level low high)"

definition share_chars ::
  "(string \<Rightarrow> string) \<Rightarrow> (int \<Rightarrow> int \<times> int) \<Rightarrow> (string \<Rightarrow> exn + character option)
     \<Rightarrow> string list \<Rightarrow> share_reply"
  where
  "share_chars lower get_share_range get_character chars =
     (if length chars > 5 then TooManyCharacters
      else if length chars = 1 then
        (case get_character (hd chars) of
           Inl e \<Rightarrow> if e = NetworkError then ConnectionIssues else Uncaught e
         | Inr None \<Rightarrow> NoCharacter
         | Inr (Some char) \<Rightarrow>
             SingleRange (name char) (level char)
               (fst (get_share_range (level char))) (snd (get_share_range (level char))))
      else if list_all (\<lambda>x. lower x = lower (hd chars)) chars then SharingWithYourself
      else
        (case fetch_chars get_character chars of
           Inl r \<Rightarrow> r
         | Inr char_data \<Rightarrow> share_group get_share_range (length chars) char_data))"

text \<open>Lines 1065-1130: the command. \<open>as_level\<close> is the outcome of \<^verbatim>\<open>int(param)\<close>,
  \<open>None\<close> when it raises \<^verbatim>\<open>ValueError\<close>.\<close>

definition share ::
  "(string \<Rightarrow> string) \<Rightarrow> (int \<Rightarrow> int \<times> int) \<Rightarrow> (string \<Rightarrow> exn + character option)
     \<Rightarrow> int option \<Rightarrow> string list \<Rightarrow> share_reply" where
  "share lower get_share_range get_character as_level chars =
     (case as_level of
        Some lvl \<Rightarrow>
          if lvl < 1 then InvalidLevel
          else LevelRange lvl (fst (get_share_range lvl)) (snd (get_share_range lvl))
      | None \<Rightarrow> share_chars lower get_share_range get_character chars)"

text \<open>The individual band of a level, as a set of levels.\<close>

definition band :: "(int \<Rightarrow> int \<times> int) \<Rightarrow> int \<Rightarrow> int set" where
  "band get_share_range l = {fst (get_share_range l) .. snd (get_share_range l)}"

text \<open>\<open>get_share_range\<close> does not decrease, in either bound, between the levels
  of the given characters.\<close>

definition range_monotone_on :: "(int \<Rightarrow> int \<times> int) \<Rightarrow> character list \<Rightarrow> bool" where
  "range_monotone_on get_share_range cs =
     list_all (\<lambda>a. list_all (\<lambda>b. level b < level a
         \<or> (fst (get_share_range (level a)) \<le> fst (get_share_range (level b))
            \<and> snd (get_share_range (level a)) \<le> snd (get_share_range (level b)))) cs) cs"

section \<open>The stats command (\<open>Tibia.stats\<close>)\<close>

text \<open>
  \<^verbatim>\<open>get_stats\<close> (the stat formulas) lives in \<^verbatim>\<open>utils/tibia.py\<close>; the command takes it
  as a parameter that returns the stats or raises \<^verbatim>\<open>ValueError\<close> with a message.
  Python's \<^verbatim>\<open>int\<close> on a string is the parameter \<open>py_int\<close> (\<open>None\<close>: \<^verbatim>\<open>ValueError\<close>).
  \<open>params\<close> is \<^verbatim>\<open>params.split(",")\<close>.
\<close>

record stat_snapshot =
  stat_vocation :: string
  hp :: int
  mp :: int
  cap :: int
  exp :: int
  exp_tnl :: int

datatype stats_reply =
    InvalidArguments    \<comment> \<open>"Invalid arguments, examples: ..."\<close>
  | TryAgain            \<comment> \<open>"Sorry, can you try it again?"\<close>
  | DoesntExist string  \<comment> \<open>"Character **{0}** doesn't exist!"\<close>
  | StatsUncaught exn
  | LevelTooLow         \<comment> \<open>"Not even *you* can go down so low!"\<close>
  | LevelTooHigh        \<comment> \<open>"Why do you care? You will __**never**__ reach this level"\<close>
  | StatsError string   \<comment> \<open>the message of the \<^verbatim>\<open>ValueError\<close> of \<^verbatim>\<open>get_stats\<close>\<close>
  | CharacterStats character int stat_snapshot
  | LevelStats int stat_snapshot

text \<open>\<^verbatim>\<open>re.compile('\d').search\<close>, on ASCII digits.\<close>

definition has_digit :: "string \<Rightarrow> bool" where
  "has_digit s = list_ex (\<lambda>c. 48 \<le> (of_char c :: nat) \<and> (of_char c :: nat) \<le> 57) s"

text \<open>Lines 1198-1229: what the arguments resolve to, a reply that ends the command
  or the character (if any), the level and the vocation.\<close>

definition stats_arguments ::
  "(string \<Rightarrow> int option) \<Rightarrow> (string \<Rightarrow> exn + character option) \<Rightarrow> string list
     \<Rightarrow> stats_reply + (character option \<times> int \<times> string)" where
  "stats_arguments py_int get_character params =
     (if length params = 1 then
        (if has_digit (params ! 0) then Inl InvalidArguments
         else case get_character (params ! 0) of
                Inl e \<Rightarrow> Inl (if e = NetworkError then DoesntExist (params ! 0) else StatsUncaught e)
              | Inr None \<Rightarrow> Inl TryAgain
              | Inr (Some char) \<Rightarrow> Inr (Some char, level char, vocation char))
      else if length params = 2 then
        (case py_int (params ! 0) of
           Some lvl \<Rightarrow> Inr (None, lvl, params ! 1)
         | None \<Rightarrow>
            (case py_int (params ! 1) of
               Some lvl \<Rightarrow> Inr (None, lvl, params ! 0)
             | None \<Rightarrow> Inl InvalidArguments))
      else Inl InvalidArguments)"

text \<open>Lines 1230-1261: the level checks, the call of \<^verbatim>\<open>get_stats\<close> and the reply.\<close>

definition stats_for ::
  "(int \<Rightarrow> string \<Rightarrow> string + stat_snapshot) \<Rightarrow> character option \<Rightarrow> int \<Rightarrow> string \<Rightarrow> stats_reply"
  where
  "stats_for get_stats char lvl voc =
     (if lvl \<le> 0 then LevelTooLow
      else if lvl \<ge> 2000 then LevelTooHigh
      else case get_stats lvl voc of
             Inl e \<Rightarrow> StatsError e
           | Inr stats0 \<Rightarrow>
               let stats = (if stat_vocation stats0 = ''no vocation''
                            then stats0\<lparr>stat_vocation := ''with no vocation''\<rparr> else stats0)
               in (case char of
                     Some c \<Rightarrow> CharacterStats c lvl stats
                   | None \<Rightarrow> LevelStats lvl stats))"

definition stats ::
  "(string \<Rightarrow> int option) \<Rightarrow> (string \<Rightarrow> exn + character option)
     \<Rightarrow> (int \<Rightarrow> string \<Rightarrow> string + stat_snapshot) \<Rightarrow> string list \<Rightarrow> stats_reply" where
  "stats py_int get_character get_stats params =
     (case stats_arguments py_int get_character params of
        Inl reply \<Rightarrow> reply
      | Inr (char, lvl, voc) \<Rightarrow> stats_for get_stats char lvl voc)"

section \<open>The news poller (\<open>Tibia.scan_news\<close>)\<close>

text \<open>
  An item of the list \<^verbatim>\<open>get_recent_news\<close> returns (newest first): its id and its date,
  a day number. A fetched article is what \<^verbatim>\<open>get_news_article\<close> returns. A guild has
  the news channel id that \<^verbatim>\<open>get_server_property(guild.id, "news_channel", is_int=True,
  default=0)\<close> reads for it, \<open>0\<close> when the guild has not set one.
\<close>

record news_item =
  item_id :: int
  item_date :: int

record article =
  article_id :: int
  article_title :: string

record guild =
  guild_id :: int
  news_channel :: int

text \<open>
  What the world does during one pass of the loop: the value of
  \<^verbatim>\<open>self.bot.is_closed()\<close> at the loop test, the outcome of \<^verbatim>\<open>get_recent_news()\<close>
  (an exception, \<^verbatim>\<open>None\<close> or the list), the day \<^verbatim>\<open>dt.date.today()\<close> gives, the
  outcome of \<^verbatim>\<open>get_news_article(id)\<close> (an exception, \<^verbatim>\<open>None\<close> or the article), the
  guilds of the bot, what the \<^verbatim>\<open>channel.send\<close> of an article to a guild's channel
  raises (\<open>None\<close>: it is delivered), and whether the task is cancelled while it sleeps.
\<close>

record env =
  is_closed :: bool
  get_recent_news :: "exn + news_item list option"
  today :: int
  get_news_article :: "int \<Rightarrow> exn + article option"
  guilds :: "guild list"
  channel_send :: "int \<Rightarrow> article \<Rightarrow> exn option"
  sleep_cancelled :: bool

text \<open>
  The file \<^verbatim>\<open>data/last_article.txt\<close>, as far as \<^verbatim>\<open>open\<close> and \<^verbatim>\<open>int(f.read())\<close> tell
  its states apart: the directory \<^verbatim>\<open>data\<close> is missing (and the file with it), the
  directory is there without the file, the file holds contents that \<^verbatim>\<open>int\<close>
  rejects, or it holds an integer. Nothing in the source creates the directory.
\<close>

datatype marker_file = NoDirectory | NoFile | Unparsable | Stored int

text \<open>What an observer sees of a pass, in order.\<close>

datatype event =
    Sleep nat               \<comment> \<open>\<^verbatim>\<open>asyncio.sleep\<close> of that many seconds was begun\<close>
  | LogNoLastArticle        \<comment> \<open>\<^verbatim>\<open>log.info("scan_news: No last article id saved")\<close>\<close>
  | WriteMarker int         \<comment> \<open>\<^verbatim>\<open>data/last_article.txt\<close> was written with this id\<close>
  | LogAnnouncing int       \<comment> \<open>\<^verbatim>\<open>log.info("Announcing new article: {id} - {title}")\<close>\<close>
  | Delivered int int       \<comment> \<open>\<^verbatim>\<open>channel.send\<close> returned: guild id, article id\<close>
  | LogWarning string       \<comment> \<open>\<^verbatim>\<open>log.warning\<close>\<close>
  | LogException exn        \<comment> \<open>\<^verbatim>\<open>log.exception("Task: scan_news")\<close>\<close>

text \<open>A step that may raise: the exception raised (if any) and the events up to there.
  \<open>and_then\<close> runs a second step after a first one that did not raise.\<close>

type_synonym step = "exn option \<times> event list"

definition and_then :: "step \<Rightarrow> step \<Rightarrow> step" where
  "and_then first second =
     (case fst first of
        Some e \<Rightarrow> first
      | None \<Rightarrow> (fst second, snd first @ snd second))"

text \<open>\<^verbatim>\<open>await asyncio.sleep(n)\<close>: raises \<^verbatim>\<open>CancelledError\<close> when the task is cancelled
  meanwhile.\<close>

definition sleep :: "env \<Rightarrow> nat \<Rightarrow> step" where
  "sleep e n = (if sleep_cancelled e then Some CancelledError else None, [Sleep n])"

text \<open>Lines 1921-1926: \<^verbatim>\<open>open\<close> raises \<^verbatim>\<open>FileNotFoundError\<close>, \<^verbatim>\<open>int\<close> raises
  \<^verbatim>\<open>ValueError\<close>; both are caught and leave \<^verbatim>\<open>last_id = 0\<close>.\<close>

definition read_marker :: "marker_file \<Rightarrow> exn + int" where
  "read_marker f =
     (case f of
        NoDirectory \<Rightarrow> Inl FileNotFoundError
      | NoFile \<Rightarrow> Inl FileNotFoundError
      | Unparsable \<Rightarrow> Inl ValueError
      | Stored n \<Rightarrow> Inr n)"

definition load_last_id :: "marker_file \<Rightarrow> exn + (int \<times> event list)" where
  "load_last_id f =
     (case read_marker f of
        Inr n \<Rightarrow> Inr (n, [])
      | Inl e \<Rightarrow> if e = ValueError \<or> e = FileNotFoundError then Inr (0, [LogNoLastArticle])
                 else Inl e)"

text \<open>Lines 1928-1929 and 1942-1943: \<^verbatim>\<open>open("data/last_article.txt", 'w+')\<close> creates or
  truncates the file and raises \<^verbatim>\<open>FileNotFoundError\<close> when the directory is missing;
  \<^verbatim>\<open>f.write(str(n))\<close> leaves a file that reads back as \<open>n\<close>.\<close>

definition write_marker :: "marker_file \<Rightarrow> int \<Rightarrow> exn + marker_file" where
  "write_marker f n =
     (case f of
        NoDirectory \<Rightarrow> Inl FileNotFoundError
      | _ \<Rightarrow> Inr (Stored n))"

text \<open>Lines 1933-1941: the \<^verbatim>\<open>for\<close> loop over \<^verbatim>\<open>recent_news\<close>;
  \<^verbatim>\<open>new_articles.insert(0, fetched_article)\<close> puts the article in front.\<close>

fun collect :: "env \<Rightarrow> int \<Rightarrow> news_item list \<Rightarrow> article list \<Rightarrow> exn + article list" where
  "collect e last_id [] new_articles = Inr new_articles"
| "collect e last_id (item # rest) new_articles =
     (if item_id item = last_id then Inr new_articles
      else if today e - item_date item > 7 then Inr new_articles
      else case get_news_article e (item_id item) of
             Inl x \<Rightarrow> Inl x
           | Inr None \<Rightarrow> collect e last_id rest new_articles
           | Inr (Some fetched_article) \<Rightarrow> collect e last_id rest (fetched_article # new_articles))"

text \<open>Lines 1954-1960: one \<^verbatim>\<open>channel.send\<close> with its two handlers.\<close>

definition send_one :: "env \<Rightarrow> guild \<Rightarrow> article \<Rightarrow> step" where
  "send_one e g a =
     (case channel_send e (guild_id g) a of
        None \<Rightarrow> (None, [Delivered (guild_id g) (article_id a)])
      | Some x \<Rightarrow>
          if x = Forbidden then (None, [LogWarning ''scan_news: Missing permissions.''])
          else if x = HTTPException then (None, [LogWarning ''scan_news: Malformed message.''])
          else (Some x, []))"

text \<open>Lines 1949-1960: the \<^verbatim>\<open>for\<close> loop over the guilds, for one article.\<close>

fun send_guilds :: "env \<Rightarrow> article \<Rightarrow> guild list \<Rightarrow> step" where
  "send_guilds e a [] = (None, [])"
| "send_guilds e a (g # gs) =
     (if news_channel g = 0 then send_guilds e a gs
      else and_then (send_one e g a) (send_guilds e a gs))"

text \<open>Lines 1947-1960: the \<^verbatim>\<open>for\<close> loop over \<^verbatim>\<open>new_articles\<close>.\<close>

fun announce :: "env \<Rightarrow> article list \<Rightarrow> step" where
  "announce e [] = (None, [])"
| "announce e (a # as) =
     and_then (None, [LogAnnouncing (article_id a)])
       (and_then (send_guilds e a (guilds e)) (announce e as))"

text \<open>Lines 1916-1961: the body of the \<^verbatim>\<open>try\<close>. The result is the exception that
  leaves the body (\<open>None\<close> when the body ends or reaches a \<^verbatim>\<open>continue\<close>), the marker
  file and the events.\<close>

definition scan_body :: "env \<Rightarrow> marker_file \<Rightarrow> exn option \<times> marker_file \<times> event list" where
  "scan_body e file =
     (case get_recent_news e of
        Inl x \<Rightarrow> (Some x, file, [])
      | Inr None \<Rightarrow> (fst (sleep e 30), file, snd (sleep e 30))
      | Inr (Some recent_news) \<Rightarrow>
         (case recent_news of
            [] \<Rightarrow> (Some IndexError, file, [])
          | newest # _ \<Rightarrow>
             (let last_article = item_id newest in
              case load_last_id file of
                Inl x \<Rightarrow> (Some x, file, [])
              | Inr (last_id, logged) \<Rightarrow>
                 if last_id = 0 then
                   (case write_marker file last_article of
                      Inl x \<Rightarrow> (Some x, file, logged)
                    | Inr written \<Rightarrow>
                       (let s = and_then (None, logged @ [WriteMarker last_article])
                                  (sleep e (60 * 60 * 2))
                        in (fst s, written, snd s)))
                 else
                   (case collect e last_id recent_news [] of
                      Inl x \<Rightarrow> (Some x, file, logged)
                    | Inr new_articles \<Rightarrow>
                       (case write_marker file last_article of
                          Inl x \<Rightarrow> (Some x, file, logged)
                        | Inr written \<Rightarrow>
                           if length new_articles = 0 then
                             (let s = and_then (None, logged @ [WriteMarker last_article])
                                        (sleep e (60 * 60 * 2))
                              in (fst s, written, snd s))
                           else
                             (let s = and_then (None, logged @ [WriteMarker last_article])
                                        (and_then (announce e new_articles) (sleep e (60 * 60 * 2)))
                              in (fst s, written, snd s)))))))"

text \<open>Where a pass leaves the loop: back at the loop test, out of the loop by
  \<^verbatim>\<open>break\<close>, or with an exception that leaves \<^verbatim>\<open>scan_news\<close>.\<close>

datatype control = Next | Stop | Escaped exn

text \<open>Lines 1915-1969: the \<^verbatim>\<open>try\<close> with its three handlers, in the source's order.
  The \<^verbatim>\<open>asyncio.sleep(30)\<close> of the first handler is outside the \<^verbatim>\<open>try\<close>.\<close>

definition scan_iteration :: "env \<Rightarrow> marker_file \<Rightarrow> control \<times> marker_file \<times> event list" where
  "scan_iteration e file =
     (case scan_body e file of
        (None, file', evs) \<Rightarrow> (Next, file', evs)
      | (Some x, file', evs) \<Rightarrow>
          if x = NetworkError then
            (case sleep e 30 of
               (None, evs') \<Rightarrow> (Next, file', evs @ evs')
             | (Some x', evs') \<Rightarrow> (Escaped x', file', evs @ evs'))
          else if x = CancelledError then (Stop, file', evs)
          else (Next, file', evs @ [LogException x]))"

text \<open>How a run of the loop stands after the passes of a finite script: still
  running, ended by the loop test, ended by \<^verbatim>\<open>break\<close>, or left by an exception.\<close>

datatype loop_result = Running | Closed | Cancelled | Raised exn

text \<open>Lines 1914-1969: the \<^verbatim>\<open>while not self.bot.is_closed()\<close> loop, one \<open>env\<close> for
  each pass. The loop has no bound of its own; the script is the prefix of a run
  that is looked at. The \<^verbatim>\<open>await self.bot.wait_until_ready()\<close> ahead of the loop is
  taken to have returned.\<close>

fun scan_news :: "env list \<Rightarrow> marker_file \<Rightarrow> loop_result \<times> marker_file \<times> event list" where
  "scan_news [] file = (Running, file, [])"
| "scan_news (e # es) file =
     (if is_closed e then (Closed, file, [])
      else case scan_iteration e file of
             (Next, file', evs) \<Rightarrow>
               (case scan_news es file' of (r, file'', evs') \<Rightarrow> (r, file'', evs @ evs'))
           | (Stop, file', evs) \<Rightarrow> (Cancelled, file', evs)
           | (Escaped x, file', evs) \<Rightarrow> (Raised x, file', evs))"

text \<open>The ids announced, in order, and the events that emit an article.\<close>

fun announced :: "event list \<Rightarrow> int list" where
  "announced [] = []"
| "announced (LogAnnouncing i # evs) = i # announced evs"
| "announced (_ # evs) = announced evs"

fun delivered :: "event list \<Rightarrow> (int \<times> int) list" where
  "delivered [] = []"
| "delivered (Delivered g a # evs) = (g, a) # delivered evs"
| "delivered (_ # evs) = delivered evs"

fun is_emission :: "event \<Rightarrow> bool" where
  "is_emission (LogAnnouncing _) = True"
| "is_emission (Delivered _ _) = True"
| "is_emission _ = False"

fun is_write :: "event \<Rightarrow> bool" where
  "is_write (WriteMarker _) = True"
| "is_write _ = False"

text \<open>The age of an item in days, \<^verbatim>\<open>(dt.date.today() - article["date"]).days\<close>.\<close>

definition age :: "env \<Rightarrow> news_item \<Rightarrow> int" where
  "age e item = today e - item_date item"

fun warnings :: "event list \<Rightarrow> string list" where
  "warnings [] = []"
| "warnings (LogWarning w # evs) = w # warnings evs"
| "warnings (_ # evs) = warnings evs"

text \<open>The events from the first write of the marker on (none when it is never
  written).\<close>

definition from_write :: "event list \<Rightarrow> event list" where
  "from_write evs = dropWhile (\<lambda>ev. \<not> is_write ev) evs"

text \<open>Every \<^verbatim>\<open>channel.send\<close> of the given articles to a guild with a news channel
  is delivered or fails with one of the two exceptions that line 1957 and line 1959
  catch.\<close>

definition deliveries_handled :: "env \<Rightarrow> article list \<Rightarrow> bool" where
  "deliveries_handled e batch =
     list_all (\<lambda>a. list_all (\<lambda>g. news_channel g = 0
         \<or> channel_send e (guild_id g) a = None
         \<or> channel_send e (guild_id g) a = Some Forbidden
         \<or> channel_send e (guild_id g) a = Some HTTPException) (guilds e)) batch"

text \<open>The guilds an article is delivered to, and the warning a failed delivery logs.\<close>

definition reached :: "env \<Rightarrow> article \<Rightarrow> guild list" where
  "reached e a = filter (\<lambda>g. news_channel g \<noteq> 0 \<and> channel_send e (guild_id g) a = None) (guilds e)"

definition failed :: "env \<Rightarrow> article \<Rightarrow> guild list" where
  "failed e a = filter (\<lambda>g. news_channel g \<noteq> 0 \<and> channel_send e (guild_id g) a \<noteq> None) (guilds e)"

definition warning_of :: "env \<Rightarrow> article \<Rightarrow> guild \<Rightarrow> string" where
  "warning_of e a g =
     (if channel_send e (guild_id g) a = Some Forbidden then ''scan_news: Missing permissions.''
      else ''scan_news: Malformed message.'')"

section \<open>Sample worlds\<close>

text \<open>A feed of four items seen on day 100: ids 6, 5, 4 and 3, aged 1, 2, 9 and 20
  days; and the same feed a day later, with a new item 7 and item 6 withdrawn.\<close>

definition sample_feed :: "news_item list" where
  "sample_feed =
     [\<lparr>item_id = 6, item_date = 99\<rparr>, \<lparr>item_id = 5, item_date = 98\<rparr>,
      \<lparr>item_id = 4, item_date = 91\<rparr>, \<lparr>item_id = 3, item_date = 80\<rparr>]"

definition later_feed :: "news_item list" where
  "later_feed =
     [\<lparr>item_id = 7, item_date = 101\<rparr>, \<lparr>item_id = 5, item_date = 98\<rparr>,
      \<lparr>item_id = 4, item_date = 91\<rparr>, \<lparr>item_id = 3, item_date = 80\<rparr>]"

text \<open>The feed a day later when nothing is withdrawn: item 7 is new.\<close>

definition next_feed :: "news_item list" where
  "next_feed =
     [\<lparr>item_id = 7, item_date = 101\<rparr>, \<lparr>item_id = 6, item_date = 99\<rparr>,
      \<lparr>item_id = 5, item_date = 98\<rparr>, \<lparr>item_id = 4, item_date = 91\<rparr>,
      \<lparr>item_id = 3, item_date = 80\<rparr>]"

text \<open>\<^verbatim>\<open>get_news_article\<close> that finds every article; that returns \<^verbatim>\<open>None\<close> for one
  id; that raises \<^verbatim>\<open>NetworkError\<close> for one id.\<close>

definition fetch_all :: "int \<Rightarrow> exn + article option" where
  "fetch_all i = Inr (Some \<lparr>article_id = i, article_title = ''News''\<rparr>)"

definition fetch_none_at :: "int \<Rightarrow> int \<Rightarrow> exn + article option" where
  "fetch_none_at k i = (if i = k then Inr None else fetch_all i)"

definition fetch_fails_at :: "int \<Rightarrow> int \<Rightarrow> exn + article option" where
  "fetch_fails_at k i = (if i = k then Inl NetworkError else fetch_all i)"

text \<open>\<^verbatim>\<open>get_news_article\<close> that returns \<^verbatim>\<open>None\<close> for article 6 and raises
  \<^verbatim>\<open>NetworkError\<close> for article 5.\<close>

definition fetch_none_6_fails_5 :: "int \<Rightarrow> exn + article option" where
  "fetch_none_6_fails_5 i =
     (if i = 6 then Inr None else if i = 5 then Inl NetworkError else fetch_all i)"

text \<open>Three guilds, the second without a news channel; a \<^verbatim>\<open>channel.send\<close> that
  always delivers, one that is forbidden in guild 1, and one that raises an
  exception without a handler of its own in guild 1.\<close>

definition sample_guilds :: "guild list" where
  "sample_guilds =
     [\<lparr>guild_id = 1, news_channel = 11\<rparr>, \<lparr>guild_id = 2, news_channel = 0\<rparr>,
      \<lparr>guild_id = 3, news_channel = 33\<rparr>]"

definition send_ok :: "int \<Rightarrow> article \<Rightarrow> exn option" where
  "send_ok g a = None"

definition send_forbidden_in_1 :: "int \<Rightarrow> article \<Rightarrow> exn option" where
  "send_forbidden_in_1 g a = (if g = 1 then Some Forbidden else None)"

definition send_breaks_in_1 :: "int \<Rightarrow> article \<Rightarrow> exn option" where
  "send_breaks_in_1 g a = (if g = 1 then Some OtherException else None)"

definition sample_env :: env where
  "sample_env =
     \<lparr>is_closed = False, get_recent_news = Inr (Some sample_feed), today = 100,
      get_news_article = fetch_all, guilds = sample_guilds, channel_send = send_ok,
      sleep_cancelled = False\<rparr>"

text \<open>Arguments of the other commands.\<close>

definition sample_int :: "string \<Rightarrow> int option" where
  "sample_int s =
     (if s = ''0'' then Some 0 else if s = ''8'' then Some 8
      else if s = ''2000'' then Some 2000 else None)"

definition sample_stats :: "int \<Rightarrow> string \<Rightarrow> string + stat_snapshot" where
  "sample_stats l v =
     Inr \<lparr>stat_vocation = v, hp = 5 * l + 145, mp = 5 * l + 50, cap = 10 * l + 390,
          exp = 0, exp_tnl = 100\<rparr>"

definition clamped_stats :: "int \<Rightarrow> string \<Rightarrow> string + stat_snapshot" where
  "clamped_stats l v = sample_stats (max 1 (min 1999 l)) v"

definition sample_character :: "string \<Rightarrow> exn + character option" where
  "sample_character n =
     (if n = ''Ann'' then Inr (Some \<lparr>name = ''Ann'', level = 100, vocation = ''Knight''\<rparr>)
      else if n = ''Bob'' then Inr (Some \<lparr>name = ''Bob'', level = 60, vocation = ''Druid''\<rparr>)
      else if n = ''Cy'' then Inr (Some \<lparr>name = ''Cy'', level = 90, vocation = ''Paladin''\<rparr>)
      else Inr None)"

text \<open>A \<open>lower\<close> that folds the letters A to Z and leaves every other character.\<close>

definition ascii_lower :: "string \<Rightarrow> string" where
  "ascii_lower s =
     map (\<lambda>c. if 65 \<le> (of_char c :: nat) \<and> (of_char c :: nat) \<le> 90
              then char_of ((of_char c :: nat) + 32) else c) s"

definition sample_range :: "int \<Rightarrow> int \<times> int" where
  "sample_range l = (l * 2 div 3, l * 3 div 2)"

section \<open>Properties of the stamina command\<close>

lemma resting_time_spec: "resting_time c = time_to_full_spec c"
  by (simp add: resting_time_def time_to_full_spec_def timedelta_def)

lemma hours_minutes_floor: "(t div 3600) * 60 + t mod 3600 div 60 = (t::int) div 60"
proof -
  have "t div 60 = (3600 * (t div 3600) + t mod 3600) div 60" by simp
  also have "\<dots> = (60 * (60 * (t div 3600)) + t mod 3600) div 60" by (simp add: algebra_simps)
  also have "\<dots> = 60 * (t div 3600) + t mod 3600 div 60" by (simp only: div_mult_self2 add.commute)
  finally show ?thesis by simp
qed

lemma stamina_below_42:
  assumes "minutes < 60" and "hours < 42"
  shows "sent_msg (stamina embed_links (Some (hours, minutes))) =
           NeedRest (format_remaining (resting_time (timedelta (int hours) (int minutes))))"
  using assms by (simp add: stamina_def Let_def)

text \<open>
  C5. For a parsed stamina \<open>hours:minutes\<close> with \<open>minutes < 60\<close> and below 42:00, the
  command answers with a resting time; the resting time computed is three times the
  stamina missing below 40:00 plus ten times the stamina missing between 40:00 and
  42:00 plus ten minutes; the hours and minutes reported are that time in whole
  hours and minutes, rounded down to the minute.
\<close>

theorem stamina_resting_time:
  fixes hours minutes :: nat
  assumes "minutes < 60" and "timedelta (int hours) (int minutes) < timedelta 42 0"
  shows "\<exists>r. sent_msg (stamina embed_links (Some (hours, minutes))) = NeedRest r
       \<and> resting_time (timedelta (int hours) (int minutes))
            = time_to_full_spec (timedelta (int hours) (int minutes))
       \<and> remaining_hours r = time_to_full_spec (timedelta (int hours) (int minutes)) div 3600
       \<and> remaining_minutes r = time_to_full_spec (timedelta (int hours) (int minutes)) mod 3600 div 60
       \<and> remaining_hours r * 60 + remaining_minutes r
            = time_to_full_spec (timedelta (int hours) (int minutes)) div 60"
proof -
  let ?c = "timedelta (int hours) (int minutes)"
  let ?r = "format_remaining (resting_time ?c)"
  have h: "hours < 42" using assms by (simp add: timedelta_def)
  have 1: "sent_msg (stamina embed_links (Some (hours, minutes))) = NeedRest ?r"
    using assms(1) h by (rule stamina_below_42)
  have 2: "remaining_hours ?r = time_to_full_spec ?c div 3600"
    by (simp add: format_remaining_def Let_def resting_time_spec)
  have 3: "remaining_minutes ?r = time_to_full_spec ?c mod 3600 div 60"
    by (simp add: format_remaining_def Let_def resting_time_spec)
  have 4: "remaining_hours ?r * 60 + remaining_minutes ?r = time_to_full_spec ?c div 60"
    unfolding 2 3 by (rule hours_minutes_floor)
  show ?thesis using 1 2 3 4 resting_time_spec by blast
qed

text \<open>At 39:30 the answer is 3 times 30 minutes plus 10 times 2 hours plus 10 minutes:
  21 hours and 40 minutes.\<close>

theorem stamina_resting_time_witness:
  "(30::nat) < 60 \<and> timedelta (int 39) (int 30) < timedelta 42 0
   \<and> sent_msg (stamina True (Some (39, 30))) = NeedRest (HoursAndMinutes 21 40)
   \<and> time_to_full_spec (timedelta (int 39) (int 30)) = 78000"
proof -
  have h1: "(30::nat) < 60" by simp
  have h2: "timedelta (int 39) (int 30) < timedelta 42 0" by (simp add: timedelta_def)
  have v: "time_to_full_spec (timedelta (int 39) (int 30)) = 78000"
    by (simp add: time_to_full_spec_def timedelta_def)
  obtain r where r: "sent_msg (stamina True (Some (39, 30))) = NeedRest r"
    "remaining_hours r = time_to_full_spec (timedelta (int 39) (int 30)) div 3600"
    "remaining_minutes r = time_to_full_spec (timedelta (int 39) (int 30)) mod 3600 div 60"
    using stamina_resting_time [OF h1 h2, of True] by blast
  have "r = HoursAndMinutes 21 40"
    using r(1) by (simp add: stamina_def Let_def timedelta_def resting_time_def format_remaining_def)
  then show ?thesis using h1 h2 v r(1) by simp
qed

text \<open>
  C6. A parsed input whose minutes are 60 or more is rejected; so is a parsed duration
  above 42:00 (with the message about 42 hours when its minutes are below 60); at
  exactly 42:00 the answer is that the stamina is full already, and no resting time
  (hence no settling delay) is reported.
\<close>

theorem stamina_rejects:
  fixes h1 m1 h2 m2 :: nat
  shows "(60 \<le> m1 \<longrightarrow> stamina embed_links (Some (h1, m1)) = Plain MinutesInvalid)
       \<and> (timedelta (int h2) (int m2) > timedelta 42 0
            \<longrightarrow> invalid_input (sent_msg (stamina embed_links (Some (h2, m2)))))
       \<and> (m2 < 60 \<and> timedelta (int h2) (int m2) > timedelta 42 0
            \<longrightarrow> stamina embed_links (Some (h2, m2)) = Plain MoreThan42)
       \<and> stamina embed_links (Some (42, 0)) = Plain FullAlready"
proof -
  have a: "60 \<le> m1 \<longrightarrow> stamina embed_links (Some (h1, m1)) = Plain MinutesInvalid"
    by (simp add: stamina_def)
  have b: "m2 < 60 \<and> timedelta (int h2) (int m2) > timedelta 42 0
            \<longrightarrow> stamina embed_links (Some (h2, m2)) = Plain MoreThan42"
    by (auto simp add: stamina_def timedelta_def Let_def)
  have c: "timedelta (int h2) (int m2) > timedelta 42 0
            \<longrightarrow> invalid_input (sent_msg (stamina embed_links (Some (h2, m2))))"
  proof (cases "m2 < 60")
    case True
    then show ?thesis using b by auto
  next
    case False
    then show ?thesis by (simp add: stamina_def)
  qed
  have d: "stamina embed_links (Some (42, 0)) = Plain FullAlready"
    by (simp add: stamina_def timedelta_def Let_def)
  show ?thesis using a b c d by blast
qed

theorem stamina_rejects_witness:
  "(60::nat) \<le> 75 \<and> stamina False (Some (10, 75)) = Plain MinutesInvalid
   \<and> (10::nat) < 60 \<and> timedelta (int 43) (int 10) > timedelta 42 0
   \<and> invalid_input (sent_msg (stamina False (Some (43, 10))))
   \<and> stamina False (Some (43, 10)) = Plain MoreThan42
   \<and> stamina False (Some (42, 0)) = Plain FullAlready"
proof -
  have h1: "(60::nat) \<le> 75" by simp
  have h2: "(10::nat) < 60" by simp
  have h3: "timedelta (int 43) (int 10) > timedelta 42 0" by (simp add: timedelta_def)
  show ?thesis using stamina_rejects [of 75 False 10 43 10] h1 h2 h3 by blast
qed

section \<open>Properties of the share command\<close>

lemma fetch_chars_length: "fetch_chars gc chars = Inr cs \<Longrightarrow> length cs = length chars"
  by (induction chars arbitrary: cs) (auto split: sum.splits option.splits)

lemma sorted_hd_Min:
  fixes xs :: "int list"
  assumes "sorted xs" and "xs \<noteq> []"
  shows "hd xs = Min (set xs)"
proof -
  obtain y ys where xs: "xs = y # ys" using assms(2) by (cases xs) auto
  have "Min (set xs) = y"
    by (rule Min_eqI) (use assms(1) xs in auto)
  then show ?thesis using xs by simp
qed

lemma sorted_last_Max:
  fixes xs :: "int list"
  assumes "sorted xs" and "xs \<noteq> []"
  shows "last xs = Max (set xs)"
proof -
  have "Max (set xs) = last xs"
  proof (rule Max_eqI)
    fix y assume "y \<in> set xs"
    then obtain i where i: "i < length xs" "xs ! i = y" by (auto simp: in_set_conv_nth)
    have "xs ! i \<le> xs ! (length xs - 1)"
      by (rule sorted_nth_mono[OF assms(1)]) (use i in auto)
    then show "y \<le> last xs" using i assms(2) by (simp add: last_conv_nth)
  qed (use assms(2) in auto)
  then show ?thesis by simp
qed

lemma sort_key_level_hd:
  assumes "cs \<noteq> []"
  shows "level (hd (sort_key level cs)) = Min (level ` set cs)"
proof -
  let ?s = "sort_key level cs"
  have ne: "?s \<noteq> []" using assms by (metis length_sort list.size(3) length_0_conv)
  have "hd (map level ?s) = Min (set (map level ?s))"
    by (rule sorted_hd_Min) (use ne in auto)
  then show ?thesis using ne by (simp add: hd_map)
qed

lemma sort_key_level_last:
  assumes "cs \<noteq> []"
  shows "level (last (sort_key level cs)) = Max (level ` set cs)"
proof -
  let ?s = "sort_key level cs"
  have ne: "?s \<noteq> []" using assms by (metis length_sort list.size(3) length_0_conv)
  have "last (map level ?s) = Max (set (map level ?s))"
    by (rule sorted_last_Max) (use ne in auto)
  then show ?thesis using ne by (simp add: last_map)
qed

lemma share_group_reply:
  assumes "cs \<noteq> []"
  shows "share_group gsr n cs =
     (if fst (gsr (Max (level ` set cs))) > Min (level ` set cs)
      then NeedsLevels (name (hd (sort_key level cs))) (Min (level ` set cs))
             (fst (gsr (Max (level ` set cs))) - Min (level ` set cs))
             (name (last (sort_key level cs))) (Max (level ` set cs))
      else if n > 2 then AllShare (fst (gsr (Max (level ` set cs)))) (snd (gsr (Min (level ` set cs))))
      else PairShare (name (hd (sort_key level cs))) (Min (level ` set cs))
             (name (last (sort_key level cs))) (Max (level ` set cs))
             (fst (gsr (Max (level ` set cs)))) (snd (gsr (Min (level ` set cs)))))"
proof -
  have ne: "sort_key level cs \<noteq> []" using assms by (metis length_sort list.size(3) length_0_conv)
  show ?thesis
    unfolding share_group_def Let_def
    using ne by (simp only: sort_key_level_hd[OF assms] sort_key_level_last[OF assms] if_False)
qed

lemma bands_inter:
  assumes "cs \<noteq> []" and "range_monotone_on gsr cs"
  shows "(\<Inter>c\<in>set cs. band gsr (level c))
           = {fst (gsr (Max (level ` set cs))) .. snd (gsr (Min (level ` set cs)))}"
proof -
  let ?L = "level ` set cs"
  have fin: "finite ?L" "?L \<noteq> {}" using assms(1) by auto
  obtain a where a: "a \<in> set cs" "level a = Max ?L"
    using Max_in[OF fin] by auto
  obtain b where b: "b \<in> set cs" "level b = Min ?L"
    using Min_in[OF fin] by auto
  have mono: "\<And>x y. x \<in> set cs \<Longrightarrow> y \<in> set cs \<Longrightarrow> level x \<le> level y \<Longrightarrow>
      fst (gsr (level x)) \<le> fst (gsr (level y)) \<and> snd (gsr (level x)) \<le> snd (gsr (level y))"
    using assms(2) unfolding range_monotone_on_def list_all_iff by fastforce
  show ?thesis
  proof (rule set_eqI, rule iffI)
    fix l assume "l \<in> (\<Inter>c\<in>set cs. band gsr (level c))"
    then have "l \<in> band gsr (level a)" "l \<in> band gsr (level b)" using a b by auto
    then show "l \<in> {fst (gsr (Max ?L)) .. snd (gsr (Min ?L))}"
      using a b by (simp add: band_def)
  next
    fix l assume l: "l \<in> {fst (gsr (Max ?L)) .. snd (gsr (Min ?L))}"
    show "l \<in> (\<Inter>c\<in>set cs. band gsr (level c))"
    proof
      fix c assume c: "c \<in> set cs"
      have "level c \<le> level a" "level b \<le> level c" using a b c fin by auto
      then have "fst (gsr (level c)) \<le> fst (gsr (level a))" "snd (gsr (level b)) \<le> snd (gsr (level c))"
        using mono a b c by blast+
      then show "l \<in> band gsr (level c)" using l a b by (simp add: band_def)
    qed
  qed
qed

text \<open>
  C7. For two to five names that are not all the same name and all name a character:
  the command takes the low bound of the range of the highest level and the high
  bound of the range of the lowest level. When that low bound is above the lowest
  level, the reply says that the lowest character needs (low bound - lowest level)
  more levels to share with the highest one; otherwise the reply reports the range
  from that low bound to that high bound. That range is the intersection of the
  characters' individual bands whenever \<open>get_share_range\<close> does not decrease, in
  either bound, between the levels of the group.
\<close>

theorem share_joint_range:
  assumes "2 \<le> length chars" and "length chars \<le> 5"
    and "\<not> list_all (\<lambda>x. lower x = lower (hd chars)) chars"
    and "fetch_chars get_character chars = Inr cs"
  shows "share lower get_share_range get_character None chars =
     (if fst (get_share_range (Max (level ` set cs))) > Min (level ` set cs)
      then NeedsLevels (name (hd (sort_key level cs))) (Min (level ` set cs))
             (fst (get_share_range (Max (level ` set cs))) - Min (level ` set cs))
             (name (last (sort_key level cs))) (Max (level ` set cs))
      else if length chars > 2
      then AllShare (fst (get_share_range (Max (level ` set cs))))
             (snd (get_share_range (Min (level ` set cs))))
      else PairShare (name (hd (sort_key level cs))) (Min (level ` set cs))
             (name (last (sort_key level cs))) (Max (level ` set cs))
             (fst (get_share_range (Max (level ` set cs))))
             (snd (get_share_range (Min (level ` set cs)))))
   \<and> (range_monotone_on get_share_range cs \<longrightarrow>
        (\<Inter>c\<in>set cs. band get_share_range (level c))
          = {fst (get_share_range (Max (level ` set cs)))
               .. snd (get_share_range (Min (level ` set cs)))})"
proof -
  have len: "length cs = length chars" using assms(4) by (rule fetch_chars_length)
  then have ne: "cs \<noteq> []" using assms(1) by auto
  have "share lower get_share_range get_character None chars
          = share_group get_share_range (length chars) cs"
    using assms by (simp add: share_def share_chars_def)
  then show ?thesis
    using share_group_reply[OF ne] bands_inter[OF ne] by simp
qed

text \<open>Ann (100), Bob (60) and Cy (90): Bob needs 6 levels; Ann and Cy share from 66
  to 135, which is the intersection of their bands.\<close>

theorem share_joint_range_witness:
  "2 \<le> length [''Ann'', ''Cy''] \<and> length [''Ann'', ''Cy''] \<le> 5
   \<and> \<not> list_all (\<lambda>x. ascii_lower x = ascii_lower (hd [''Ann'', ''Cy''])) [''Ann'', ''Cy'']
   \<and> fetch_chars sample_character [''Ann'', ''Cy'']
        = Inr [\<lparr>name = ''Ann'', level = 100, vocation = ''Knight''\<rparr>,
               \<lparr>name = ''Cy'', level = 90, vocation = ''Paladin''\<rparr>]
   \<and> range_monotone_on sample_range
        [\<lparr>name = ''Ann'', level = 100, vocation = ''Knight''\<rparr>,
         \<lparr>name = ''Cy'', level = 90, vocation = ''Paladin''\<rparr>]
   \<and> share ascii_lower sample_range sample_character None [''Ann'', ''Cy'']
        = PairShare ''Cy'' 90 ''Ann'' 100 66 135
   \<and> band sample_range 100 \<inter> band sample_range 90 = {66 .. 135}
   \<and> fetch_chars sample_character [''Ann'', ''Bob'', ''Cy'']
        = Inr [\<lparr>name = ''Ann'', level = 100, vocation = ''Knight''\<rparr>,
               \<lparr>name = ''Bob'', level = 60, vocation = ''Druid''\<rparr>,
               \<lparr>name = ''Cy'', level = 90, vocation = ''Paladin''\<rparr>]
   \<and> share ascii_lower sample_range sample_character None [''Ann'', ''Bob'', ''Cy'']
        = NeedsLevels ''Bob'' 60 6 ''Ann'' 100"
proof -
  let ?ann = "\<lparr>name = ''Ann'', level = 100, vocation = ''Knight''\<rparr>"
  let ?bob = "\<lparr>name = ''Bob'', level = 60, vocation = ''Druid''\<rparr>"
  let ?cy = "\<lparr>name = ''Cy'', level = 90, vocation = ''Paladin''\<rparr>"
  have l2: "2 \<le> length [''Ann'', ''Cy'']" "length [''Ann'', ''Cy''] \<le> 5" by simp_all
  have n2: "\<not> list_all (\<lambda>x. ascii_lower x = ascii_lower (hd [''Ann'', ''Cy''])) [''Ann'', ''Cy'']"
    by (simp add: ascii_lower_def)
  have f2: "fetch_chars sample_character [''Ann'', ''Cy''] = Inr [?ann, ?cy]"
    by (simp add: sample_character_def)
  have m2: "range_monotone_on sample_range [?ann, ?cy]"
    by (simp add: range_monotone_on_def sample_range_def)
  have l3: "2 \<le> length [''Ann'', ''Bob'', ''Cy'']" "length [''Ann'', ''Bob'', ''Cy''] \<le> 5"
    by simp_all
  have n3: "\<not> list_all (\<lambda>x. ascii_lower x = ascii_lower (hd [''Ann'', ''Bob'', ''Cy''])) [''Ann'', ''Bob'', ''Cy'']"
    by (simp add: ascii_lower_def)
  have f3: "fetch_chars sample_character [''Ann'', ''Bob'', ''Cy''] = Inr [?ann, ?bob, ?cy]"
    by (simp add: sample_character_def)
  have s2: "sort_key level [?ann, ?cy] = [?cy, ?ann]" by simp
  have s3: "sort_key level [?ann, ?bob, ?cy] = [?bob, ?cy, ?ann]" by simp
  have r2: "share ascii_lower sample_range sample_character None [''Ann'', ''Cy'']
              = PairShare ''Cy'' 90 ''Ann'' 100 66 135"
    and i2: "band sample_range 100 \<inter> band sample_range 90 = {66 .. 135}"
    using share_joint_range [OF l2 n2 f2, of sample_range] m2
    by (simp_all add: s2 sample_range_def)
  have r3: "share ascii_lower sample_range sample_character None [''Ann'', ''Bob'', ''Cy'']
              = NeedsLevels ''Bob'' 60 6 ''Ann'' 100"
    using share_joint_range [OF l3 n3 f3, of sample_range]
    by (simp add: s3 sample_range_def)
  show ?thesis using l2 n2 f2 m2 r2 i2 f3 r3 by blast
qed

section \<open>Properties of the stats command\<close>

lemma stats_resolved:
  "stats_arguments py_int get_character params = Inr (ch, lvl, voc) \<Longrightarrow>
     stats py_int get_character get_stats params = stats_for get_stats ch lvl voc"
  by (simp add: stats_def)

lemma stats_for_agree:
  assumes "\<forall>l v. 1 \<le> l \<and> l < 2000 \<longrightarrow> get_stats l v = get_stats' l v"
  shows "stats_for get_stats ch lvl voc = stats_for get_stats' ch lvl voc"
proof (cases "1 \<le> lvl \<and> lvl < 2000")
  case True
  then have "get_stats lvl voc = get_stats' lvl voc" using assms by blast
  then show ?thesis by (simp add: stats_for_def)
next
  case False
  then show ?thesis by (auto simp add: stats_for_def)
qed

text \<open>
  C8. When the arguments resolve to a level: a level below 1 gets the reply for too
  low a level and a level of 2000 or more the reply for too high a level; a level
  from 1 to 1999 is passed as it is to \<open>get_stats\<close>; and the reply of the command
  does not depend on what \<open>get_stats\<close> does outside the levels 1 to 1999 (so it is
  called for no other level).
\<close>

theorem stats_level_bounds:
  assumes "stats_arguments py_int get_character params = Inr (ch, lvl, voc)"
  shows "(lvl < 1 \<longrightarrow> stats py_int get_character get_stats params = LevelTooLow)
       \<and> (lvl \<ge> 2000 \<longrightarrow> stats py_int get_character get_stats params = LevelTooHigh)
       \<and> (1 \<le> lvl \<and> lvl < 2000 \<longrightarrow>
            stats py_int get_character get_stats params =
              (case get_stats lvl voc of
                 Inl msg \<Rightarrow> StatsError msg
               | Inr s \<Rightarrow>
                   (case ch of
                      Some c \<Rightarrow> CharacterStats c lvl
                        (if stat_vocation s = ''no vocation''
                         then s\<lparr>stat_vocation := ''with no vocation''\<rparr> else s)
                    | None \<Rightarrow> LevelStats lvl
                        (if stat_vocation s = ''no vocation''
                         then s\<lparr>stat_vocation := ''with no vocation''\<rparr> else s))))
       \<and> ((\<forall>l v. 1 \<le> l \<and> l < 2000 \<longrightarrow> get_stats l v = get_stats' l v) \<longrightarrow>
            stats py_int get_character get_stats params
              = stats py_int get_character get_stats' params)"
proof -
  have s: "\<And>gs. stats py_int get_character gs params = stats_for gs ch lvl voc"
    using assms by (rule stats_resolved)
  have a: "lvl < 1 \<longrightarrow> stats_for get_stats ch lvl voc = LevelTooLow"
    by (simp add: stats_for_def)
  have b: "lvl \<ge> 2000 \<longrightarrow> stats_for get_stats ch lvl voc = LevelTooHigh"
    by (simp add: stats_for_def)
  have c: "1 \<le> lvl \<and> lvl < 2000 \<longrightarrow>
            stats_for get_stats ch lvl voc =
              (case get_stats lvl voc of
                 Inl msg \<Rightarrow> StatsError msg
               | Inr s \<Rightarrow>
                   (case ch of
                      Some c \<Rightarrow> CharacterStats c lvl
                        (if stat_vocation s = ''no vocation''
                         then s\<lparr>stat_vocation := ''with no vocation''\<rparr> else s)
                    | None \<Rightarrow> LevelStats lvl
                        (if stat_vocation s = ''no vocation''
                         then s\<lparr>stat_vocation := ''with no vocation''\<rparr> else s)))"
    by (simp add: stats_for_def Let_def split: sum.splits option.splits)
  have d: "(\<forall>l v. 1 \<le> l \<and> l < 2000 \<longrightarrow> get_stats l v = get_stats' l v) \<longrightarrow>
            stats_for get_stats ch lvl voc = stats_for get_stats' ch lvl voc"
    using stats_for_agree by blast
  show ?thesis unfolding s using a b c d by blast
qed

text \<open>Level 0 and level 2000 are refused, although a \<open>get_stats\<close> that clamps the
  level would answer them; level 8 is answered.\<close>

theorem stats_level_bounds_witness:
  "stats_arguments sample_int sample_character [''0'', ''knight''] = Inr (None, 0, ''knight'')
   \<and> stats sample_int sample_character clamped_stats [''0'', ''knight''] = LevelTooLow
   \<and> stats_arguments sample_int sample_character [''knight'', ''2000''] = Inr (None, 2000, ''knight'')
   \<and> stats sample_int sample_character clamped_stats [''knight'', ''2000''] = LevelTooHigh
   \<and> stats_arguments sample_int sample_character [''8'', ''knight''] = Inr (None, 8, ''knight'')
   \<and> stats sample_int sample_character sample_stats [''8'', ''knight'']
        = LevelStats 8 \<lparr>stat_vocation = ''knight'', hp = 185, mp = 90, cap = 470,
                         exp = 0, exp_tnl = 100\<rparr>
   \<and> stats sample_int sample_character sample_stats [''8'', ''knight'']
        = stats sample_int sample_character clamped_stats [''8'', ''knight'']"
proof -
  have a0: "stats_arguments sample_int sample_character [''0'', ''knight''] = Inr (None, 0, ''knight'')"
    by (simp add: stats_arguments_def sample_int_def)
  have a1: "stats_arguments sample_int sample_character [''knight'', ''2000'']
              = Inr (None, 2000, ''knight'')"
    by (simp add: stats_arguments_def sample_int_def)
  have a2: "stats_arguments sample_int sample_character [''8'', ''knight''] = Inr (None, 8, ''knight'')"
    by (simp add: stats_arguments_def sample_int_def)
  have agree: "\<forall>l v. 1 \<le> l \<and> l < 2000 \<longrightarrow> sample_stats l v = clamped_stats l v"
    by (simp add: clamped_stats_def)
  have r0: "stats sample_int sample_character clamped_stats [''0'', ''knight''] = LevelTooLow"
    using stats_level_bounds [OF a0, of clamped_stats] by simp
  have r1: "stats sample_int sample_character clamped_stats [''knight'', ''2000''] = LevelTooHigh"
    using stats_level_bounds [OF a1, of clamped_stats] by simp
  have r2: "stats sample_int sample_character sample_stats [''8'', ''knight'']
        = LevelStats 8 \<lparr>stat_vocation = ''knight'', hp = 185, mp = 90, cap = 470,
                         exp = 0, exp_tnl = 100\<rparr>"
    using stats_level_bounds [OF a2, of sample_stats] by (simp add: sample_stats_def)
  have r3: "stats sample_int sample_character sample_stats [''8'', ''knight'']
        = stats sample_int sample_character clamped_stats [''8'', ''knight'']"
    using stats_level_bounds [OF a2, of sample_stats clamped_stats] agree by blast
  show ?thesis using a0 a1 a2 r0 r1 r2 r3 by blast
qed

section \<open>Properties of the news poller\<close>

subsection \<open>Events of the steps\<close>

lemma and_then_None [simp]: "and_then (None, evs) s = (fst s, evs @ snd s)"
  by (simp add: and_then_def)

lemma and_then_Some [simp]: "and_then (Some x, evs) s = (Some x, evs)"
  by (simp add: and_then_def)

lemma and_then_fst_None: "fst f = None \<Longrightarrow> and_then f s = (fst s, snd f @ snd s)"
  by (simp add: and_then_def)

lemma announced_append [simp]: "announced (xs @ ys) = announced xs @ announced ys"
  by (induction xs rule: announced.induct) auto

lemma delivered_append [simp]: "delivered (xs @ ys) = delivered xs @ delivered ys"
  by (induction xs rule: delivered.induct) auto

lemma warnings_append [simp]: "warnings (xs @ ys) = warnings xs @ warnings ys"
  by (induction xs rule: warnings.induct) auto

lemma sleep_events [simp]: "snd (sleep e n) = [Sleep n]"
  by (simp add: sleep_def)

lemma sleep_result [simp]: "fst (sleep e n) = (if sleep_cancelled e then Some CancelledError else None)"
  by (simp add: sleep_def)

lemma send_one_announced [simp]: "announced (snd (send_one e g a)) = []"
  by (simp add: send_one_def split: option.splits)

lemma send_guilds_announced [simp]: "announced (snd (send_guilds e a gs)) = []"
proof (induction gs)
  case Nil
  then show ?case by simp
next
  case (Cons g gs)
  show ?case
  proof (cases "fst (send_one e g a)")
    case None
    then show ?thesis using Cons by (simp add: and_then_fst_None)
  next
    case (Some x)
    then show ?thesis using Cons by (simp add: and_then_def)
  qed
qed

text \<open>Whatever happens, the ids announced are ids of the batch, in its order.\<close>

lemma announce_announced_subset:
  "set (announced (snd (announce e batch))) \<subseteq> article_id ` set batch"
proof (induction batch)
  case Nil
  then show ?case by simp
next
  case (Cons a batch)
  show ?case
  proof (cases "fst (send_guilds e a (guilds e))")
    case None
    then show ?thesis using Cons by (auto simp add: and_then_fst_None)
  next
    case (Some x)
    then show ?thesis by (simp add: and_then_def)
  qed
qed

subsection \<open>Deliveries that fail in a handled way\<close>

lemma send_guilds_handled:
  assumes "list_all (\<lambda>g. news_channel g = 0
         \<or> channel_send e (guild_id g) a = None
         \<or> channel_send e (guild_id g) a = Some Forbidden
         \<or> channel_send e (guild_id g) a = Some HTTPException) gs"
  shows "fst (send_guilds e a gs) = None
       \<and> delivered (snd (send_guilds e a gs))
           = map (\<lambda>g. (guild_id g, article_id a))
               (filter (\<lambda>g. news_channel g \<noteq> 0 \<and> channel_send e (guild_id g) a = None) gs)
       \<and> warnings (snd (send_guilds e a gs))
           = map (warning_of e a)
               (filter (\<lambda>g. news_channel g \<noteq> 0 \<and> channel_send e (guild_id g) a \<noteq> None) gs)"
  using assms
proof (induction gs)
  case Nil
  then show ?case by simp
next
  case (Cons g gs)
  then have ih: "fst (send_guilds e a gs) = None"
    "delivered (snd (send_guilds e a gs))
       = map (\<lambda>g. (guild_id g, article_id a))
           (filter (\<lambda>g. news_channel g \<noteq> 0 \<and> channel_send e (guild_id g) a = None) gs)"
    "warnings (snd (send_guilds e a gs))
       = map (warning_of e a)
           (filter (\<lambda>g. news_channel g \<noteq> 0 \<and> channel_send e (guild_id g) a \<noteq> None) gs)"
    by simp_all
  consider (off) "news_channel g = 0"
    | (ok) "news_channel g \<noteq> 0" "channel_send e (guild_id g) a = None"
    | (forbidden) "news_channel g \<noteq> 0" "channel_send e (guild_id g) a = Some Forbidden"
    | (http) "news_channel g \<noteq> 0" "channel_send e (guild_id g) a = Some HTTPException"
    using Cons.prems by auto
  then show ?case
  proof cases
    case off
    then show ?thesis using ih by simp
  next
    case ok
    then show ?thesis using ih by (simp add: send_one_def)
  next
    case forbidden
    then show ?thesis using ih by (simp add: send_one_def warning_of_def)
  next
    case http
    then show ?thesis using ih by (simp add: send_one_def warning_of_def)
  qed
qed

lemma announce_handled:
  assumes "deliveries_handled e batch"
  shows "fst (announce e batch) = None
       \<and> announced (snd (announce e batch)) = map article_id batch
       \<and> delivered (snd (announce e batch))
           = concat (map (\<lambda>a. map (\<lambda>g. (guild_id g, article_id a)) (reached e a)) batch)
       \<and> warnings (snd (announce e batch))
           = concat (map (\<lambda>a. map (warning_of e a) (failed e a)) batch)"
  using assms
proof (induction batch)
  case Nil
  then show ?case by simp
next
  case (Cons a batch)
  then have h: "deliveries_handled e batch"
    and g: "list_all (\<lambda>g. news_channel g = 0
         \<or> channel_send e (guild_id g) a = None
         \<or> channel_send e (guild_id g) a = Some Forbidden
         \<or> channel_send e (guild_id g) a = Some HTTPException) (guilds e)"
    by (simp_all add: deliveries_handled_def)
  note sg = send_guilds_handled [OF g]
  note ih = Cons.IH [OF h]
  have "and_then (send_guilds e a (guilds e)) (announce e batch)
          = (None, snd (send_guilds e a (guilds e)) @ snd (announce e batch))"
    using sg ih by (simp add: and_then_fst_None)
  then show ?case using sg ih by (simp add: reached_def failed_def)
qed

subsection \<open>The walk over the feed\<close>

text \<open>The walk never looks past an item whose id is the marker or that is older
  than seven days.\<close>

lemma collect_stops:
  assumes "item_id stop = m \<or> age e stop > 7"
  shows "collect e m (pre @ stop # post) acc = collect e m pre acc"
  using assms
  by (induction pre arbitrary: acc) (auto simp add: age_def split: sum.splits option.splits)

text \<open>An item for which \<^verbatim>\<open>get_news_article\<close> returns \<^verbatim>\<open>None\<close> leaves no trace in the
  batch.\<close>

lemma collect_skips:
  assumes "get_news_article e (item_id x) = Inr None"
    and "item_id x \<noteq> m" and "age e x \<le> 7"
  shows "collect e m (pre @ x # post) acc = collect e m (pre @ post) acc"
  using assms
  by (induction pre arbitrary: acc) (auto simp add: age_def split: sum.splits option.splits)

subsection \<open>One pass of the loop\<close>

lemma load_last_id_cases:
  "load_last_id NoDirectory = Inr (0, [LogNoLastArticle])"
  "load_last_id NoFile = Inr (0, [LogNoLastArticle])"
  "load_last_id Unparsable = Inr (0, [LogNoLastArticle])"
  "load_last_id (Stored n) = Inr (n, [])"
  by (simp_all add: load_last_id_def read_marker_def)

lemma write_marker_cases:
  "write_marker NoDirectory n = Inl FileNotFoundError"
  "write_marker NoFile n = Inr (Stored n)"
  "write_marker Unparsable n = Inr (Stored n)"
  "write_marker (Stored k) n = Inr (Stored n)"
  by (simp_all add: write_marker_def)

lemma write_marker_directory: "mf \<noteq> NoDirectory \<Longrightarrow> write_marker mf n = Inr (Stored n)"
  by (cases mf) (simp_all add: write_marker_cases)

lemma scan_body_seed:
  assumes "get_recent_news e = Inr (Some (newest # rest))"
    and "load_last_id file = Inr (0, logged)"
    and "file \<noteq> NoDirectory"
  shows "scan_body e file =
           (if sleep_cancelled e then Some CancelledError else None, Stored (item_id newest),
            logged @ [WriteMarker (item_id newest), Sleep 7200])"
  using assms by (simp add: scan_body_def Let_def write_marker_directory)

lemma scan_body_no_directory:
  assumes "get_recent_news e = Inr (Some (newest # rest))"
  shows "scan_body e NoDirectory = (Some FileNotFoundError, NoDirectory, [LogNoLastArticle])"
  using assms by (simp add: scan_body_def Let_def load_last_id_cases write_marker_cases)

lemma scan_body_past_seed:
  assumes "get_recent_news e = Inr (Some (newest # rest))"
    and "m \<noteq> 0"
    and "collect e m (newest # rest) [] = Inr batch"
  shows "scan_body e (Stored m) =
           (fst (and_then (announce e batch) (sleep e 7200)), Stored (item_id newest),
            WriteMarker (item_id newest) # snd (and_then (announce e batch) (sleep e 7200)))"
proof (cases "batch = []")
  case True
  then show ?thesis
    using assms by (simp add: scan_body_def Let_def load_last_id_cases write_marker_cases del: collect.simps)
next
  case False
  then show ?thesis
    using assms by (simp add: scan_body_def Let_def load_last_id_cases write_marker_cases del: collect.simps)
qed

lemma scan_body_walk_raises:
  assumes "get_recent_news e = Inr (Some (newest # rest))"
    and "m \<noteq> 0"
    and "collect e m (newest # rest) [] = Inl x"
  shows "scan_body e (Stored m) = (Some x, Stored m, [])"
  using assms by (simp add: scan_body_def Let_def load_last_id_cases write_marker_cases del: collect.simps)

text \<open>The handlers add no announcement and no delivery, and leave the marker file
  as the body left it.\<close>

lemma scan_iteration_of_body:
  assumes "scan_body e file = (r, file', evs)"
  shows "fst (snd (scan_iteration e file)) = file'
       \<and> (\<exists>tail. snd (snd (scan_iteration e file)) = evs @ tail
             \<and> announced tail = [] \<and> delivered tail = [])"
proof (cases r)
  case None
  then show ?thesis using assms by (simp add: scan_iteration_def)
next
  case (Some x)
  then show ?thesis
    using assms by (simp add: scan_iteration_def sleep_def)
qed

lemma scan_iteration_body_ends:
  assumes "scan_body e file = (None, file', evs)"
  shows "scan_iteration e file = (Next, file', evs)"
  using assms by (simp add: scan_iteration_def)

lemma scan_iteration_body_cancelled:
  assumes "scan_body e file = (Some CancelledError, file', evs)"
  shows "scan_iteration e file = (Stop, file', evs)"
  using assms by (simp add: scan_iteration_def)

text \<open>A pass whose deliveries fail in a handled way at worst.\<close>

lemma scan_iteration_handled:
  assumes "get_recent_news e = Inr (Some (newest # rest))"
    and "m \<noteq> 0"
    and "collect e m (newest # rest) [] = Inr batch"
    and "deliveries_handled e batch"
  shows "scan_iteration e (Stored m) =
           (if sleep_cancelled e then Stop else Next, Stored (item_id newest),
            WriteMarker (item_id newest) # snd (announce e batch) @ [Sleep 7200])"
proof -
  have a: "fst (announce e batch) = None"
    using announce_handled [OF assms(4)] by simp
  have s: "and_then (announce e batch) (sleep e 7200)
             = (if sleep_cancelled e then Some CancelledError else None,
                snd (announce e batch) @ [Sleep 7200])"
    using a by (simp add: and_then_fst_None)
  have b: "scan_body e (Stored m) =
             (if sleep_cancelled e then Some CancelledError else None, Stored (item_id newest),
              WriteMarker (item_id newest) # snd (announce e batch) @ [Sleep 7200])"
    using scan_body_past_seed [OF assms(1,2,3)] by (simp add: s)
  show ?thesis
  proof (cases "sleep_cancelled e")
    case True
    then show ?thesis using b scan_iteration_body_cancelled by simp
  next
    case False
    then show ?thesis using b scan_iteration_body_ends by simp
  qed
qed

text \<open>The loop never ends in another way than by the loop test, by \<^verbatim>\<open>break\<close> or by
  a cancellation that arrives in the sleep of the first handler.\<close>

lemma scan_iteration_control:
  "fst (scan_iteration e file) \<in> {Next, Stop, Escaped CancelledError}"
proof -
  obtain r file' evs where b: "scan_body e file = (r, file', evs)"
    by (cases "scan_body e file") auto
  show ?thesis
  proof (cases r)
    case None
    then show ?thesis using b by (simp add: scan_iteration_def)
  next
    case (Some x)
    then show ?thesis using b by (simp add: scan_iteration_def sleep_def)
  qed
qed

lemma scan_news_result:
  "fst (scan_news es mf) \<in> {Running, Closed, Cancelled, Raised CancelledError}"
proof (induction es arbitrary: mf)
  case Nil
  then show ?case by simp
next
  case (Cons e es)
  obtain c file' evs where it: "scan_iteration e mf = (c, file', evs)"
    by (cases "scan_iteration e mf") auto
  have c: "c \<in> {Next, Stop, Escaped CancelledError}"
    using scan_iteration_control [of e mf] it by simp
  obtain r f'' evs' where rest: "scan_news es file' = (r, f'', evs')"
    by (cases "scan_news es file'") auto
  have r: "r \<in> {Running, Closed, Cancelled, Raised CancelledError}"
    using Cons.IH [of file'] rest by simp
  show ?case
  proof (cases "is_closed e")
    case True
    then show ?thesis by simp
  next
    case False
    then show ?thesis using it c rest r by auto
  qed
qed

lemma scan_news_next:
  assumes "\<not> is_closed e" and "scan_iteration e file = (Next, file', evs)"
  shows "scan_news (e # es) file =
           (fst (scan_news es file'), fst (snd (scan_news es file')),
            evs @ snd (snd (scan_news es file')))"
  using assms by (simp split: prod.splits)

subsection \<open>What a pass announces, writes and survives\<close>

text \<open>
  C1. In a pass with the stored marker 3 and the feed, newest first, of
  the items 6 (one day old), 5 (two days old), 4 (nine days old) and 3, in which
  \<^verbatim>\<open>get_news_article\<close> returns the articles 6 and 5 and no delivery raises anything but
  the two handled exceptions, the batch is article 5 then article 6, the ids announced
  are 5 then 6, and 4 is not announced. In general the walk over the feed never looks
  past the first item whose id is the marker or whose age is above 7 days.
\<close>

theorem scan_news_marker3_feed:
  assumes "get_recent_news e = Inr (Some [i6, i5, i4, i3])"
    and "item_id i6 = 6" and "age e i6 = 1"
    and "item_id i5 = 5" and "age e i5 = 2"
    and "item_id i4 = 4" and "age e i4 = 9"
    and "item_id i3 = 3"
    and "get_news_article e 6 = Inr (Some a6)" and "article_id a6 = 6"
    and "get_news_article e 5 = Inr (Some a5)" and "article_id a5 = 5"
    and "deliveries_handled e [a5, a6]"
  shows "collect e 3 [i6, i5, i4, i3] [] = Inr [a5, a6]
       \<and> announced (snd (snd (scan_iteration e (Stored 3)))) = [5, 6]
       \<and> 4 \<notin> set (announced (snd (snd (scan_iteration e (Stored 3)))))
       \<and> (item_id stop = m \<or> age e' stop > 7
            \<longrightarrow> collect e' m (pre @ stop # post) acc = collect e' m pre acc)"
proof -
  have ages: "today e - item_date i6 = 1" "today e - item_date i5 = 2" "today e - item_date i4 = 9"
    using assms(3,5,7) by (simp_all add: age_def)
  have c: "collect e 3 [i6, i5, i4, i3] [] = Inr [a5, a6]"
    using assms(2,4,6,9,11) ages by simp
  have it: "scan_iteration e (Stored 3) =
              (if sleep_cancelled e then Stop else Next, Stored (item_id i6),
               WriteMarker (item_id i6) # snd (announce e [a5, a6]) @ [Sleep 7200])"
    using assms(1) _ c assms(13) by (rule scan_iteration_handled) simp
  have an: "announced (snd (announce e [a5, a6])) = map article_id [a5, a6]"
    using announce_handled [OF assms(13)] by blast
  have a: "announced (snd (snd (scan_iteration e (Stored 3)))) = [5, 6]"
    unfolding it using an assms(10,12) by simp
  have s: "item_id stop = m \<or> age e' stop > 7
            \<longrightarrow> collect e' m (pre @ stop # post) acc = collect e' m pre acc"
    using collect_stops by blast
  show ?thesis using c a s by simp
qed

theorem scan_news_marker3_feed_witness:
  "get_recent_news sample_env = Inr (Some sample_feed)
   \<and> map item_id sample_feed = [6, 5, 4, 3]
   \<and> map (age sample_env) sample_feed = [1, 2, 9, 20]
   \<and> get_news_article sample_env 6 = Inr (Some \<lparr>article_id = 6, article_title = ''News''\<rparr>)
   \<and> get_news_article sample_env 5 = Inr (Some \<lparr>article_id = 5, article_title = ''News''\<rparr>)
   \<and> deliveries_handled sample_env
        [\<lparr>article_id = 5, article_title = ''News''\<rparr>, \<lparr>article_id = 6, article_title = ''News''\<rparr>]
   \<and> collect sample_env 3 sample_feed []
        = Inr [\<lparr>article_id = 5, article_title = ''News''\<rparr>, \<lparr>article_id = 6, article_title = ''News''\<rparr>]
   \<and> announced (snd (snd (scan_iteration sample_env (Stored 3)))) = [5, 6]
   \<and> collect sample_env 3 sample_feed [] = collect sample_env 3 (take 2 sample_feed) []"
proof -
  let ?i6 = "\<lparr>item_id = 6, item_date = 99\<rparr>"
  let ?i5 = "\<lparr>item_id = 5, item_date = 98\<rparr>"
  let ?i4 = "\<lparr>item_id = 4, item_date = 91\<rparr>"
  let ?i3 = "\<lparr>item_id = 3, item_date = 80\<rparr>"
  let ?a5 = "\<lparr>article_id = 5, article_title = ''News''\<rparr>"
  let ?a6 = "\<lparr>article_id = 6, article_title = ''News''\<rparr>"
  have feed: "get_recent_news sample_env = Inr (Some [?i6, ?i5, ?i4, ?i3])"
    by (simp add: sample_env_def sample_feed_def)
  have ages: "age sample_env ?i6 = 1" "age sample_env ?i5 = 2" "age sample_env ?i4 = 9"
    "age sample_env ?i3 = 20"
    by (simp_all add: age_def sample_env_def)
  have f6: "get_news_article sample_env 6 = Inr (Some ?a6)"
    and f5: "get_news_article sample_env 5 = Inr (Some ?a5)"
    by (simp_all add: sample_env_def fetch_all_def)
  have h: "deliveries_handled sample_env [?a5, ?a6]"
    by (simp add: deliveries_handled_def sample_env_def sample_guilds_def send_ok_def)
  have sf: "sample_feed = [?i6, ?i5, ?i4, ?i3]" by (simp add: sample_feed_def)
  have ids: "item_id ?i6 = 6" "item_id ?i5 = 5" "item_id ?i4 = 4" "item_id ?i3 = 3"
    "article_id ?a6 = 6" "article_id ?a5 = 5"
    by simp_all
  note t = scan_news_marker3_feed
      [of sample_env ?i6 ?i5 ?i4 ?i3 ?a6 ?a5 ?i4 3 sample_env "[?i6, ?i5]" "[?i3]" "[]",
       OF feed ids(1) ages(1) ids(2) ages(2) ids(3) ages(3) ids(4) f6 ids(5) f5 ids(6) h]
  have st: "item_id ?i4 = 3 \<or> age sample_env ?i4 > 7"
    using ages(3) by simp
  have r1: "collect sample_env 3 [?i6, ?i5, ?i4, ?i3] [] = Inr [?a5, ?a6]"
    using t by blast
  have r2: "announced (snd (snd (scan_iteration sample_env (Stored 3)))) = [5, 6]"
    using t by blast
  have r3: "collect sample_env 3 ([?i6, ?i5] @ ?i4 # [?i3]) [] = collect sample_env 3 [?i6, ?i5] []"
    using t st by blast
  show ?thesis
    unfolding sf using feed ages f6 f5 h r1 r2 r3 by (simp del: collect.simps)
qed

text \<open>With the marker 3 and that feed, only article 5 is announced when
  \<^verbatim>\<open>get_news_article\<close> returns \<^verbatim>\<open>None\<close> for article 6, and also when the send of
  article 5 to guild 1 raises an exception that line 1957 and line 1959 do not
  catch.\<close>

theorem scan_news_marker3_feed_counterexample:
  "get_recent_news (sample_env\<lparr>get_news_article := fetch_none_at 6\<rparr>) = Inr (Some sample_feed)
   \<and> map item_id sample_feed = [6, 5, 4, 3]
   \<and> map (age (sample_env\<lparr>get_news_article := fetch_none_at 6\<rparr>)) sample_feed = [1, 2, 9, 20]
   \<and> announced (snd (snd (scan_iteration (sample_env\<lparr>get_news_article := fetch_none_at 6\<rparr>)
        (Stored 3)))) = [5]
   \<and> announced (snd (snd (scan_iteration (sample_env\<lparr>get_news_article := fetch_none_at 6\<rparr>)
        (Stored 3)))) \<noteq> [5, 6]
   \<and> scan_iteration (sample_env\<lparr>channel_send := send_breaks_in_1\<rparr>) (Stored 3)
        = (Next, Stored 6, [WriteMarker 6, LogAnnouncing 5, LogException OtherException])"
  by (simp add: sample_env_def sample_feed_def age_def fetch_none_at_def fetch_all_def
      scan_iteration_def scan_body_def load_last_id_def read_marker_def write_marker_def sample_guilds_def
      send_ok_def send_breaks_in_1_def send_one_def sleep_def Let_def)

text \<open>
  C2. When the directory \<^verbatim>\<open>data\<close> is there and the marker file is missing from it,
  does not hold an integer, or holds 0, a pass that fetches a feed with at least one
  item writes the id of the first (newest) item as the marker, sleeps two hours and
  goes back to the loop test (or leaves the loop by \<^verbatim>\<open>break\<close> when it is cancelled in
  that sleep); nothing is announced or delivered, no exception is logged, and the
  next pass of the loop starts from the new marker.
\<close>

theorem scan_news_seeds_marker:
  assumes "get_recent_news e = Inr (Some (newest # rest))"
    and "mf = NoFile \<or> mf = Unparsable \<or> mf = Stored 0"
  shows "scan_iteration e mf =
           (if sleep_cancelled e then Stop else Next, Stored (item_id newest),
            (if mf = Stored 0 then [] else [LogNoLastArticle])
              @ [WriteMarker (item_id newest), Sleep 7200])
       \<and> announced (snd (snd (scan_iteration e mf))) = []
       \<and> delivered (snd (snd (scan_iteration e mf))) = []
       \<and> (\<not> is_closed e \<and> \<not> sleep_cancelled e \<longrightarrow>
            scan_news (e # es) mf =
              (fst (scan_news es (Stored (item_id newest))),
               fst (snd (scan_news es (Stored (item_id newest)))),
               (if mf = Stored 0 then [] else [LogNoLastArticle])
                 @ [WriteMarker (item_id newest), Sleep 7200]
                 @ snd (snd (scan_news es (Stored (item_id newest))))))"
proof -
  let ?logged = "if mf = Stored 0 then [] else [LogNoLastArticle]"
  have l: "load_last_id mf = Inr (0, ?logged)"
    using assms(2) by (auto simp add: load_last_id_cases)
  have b: "scan_body e mf =
             (if sleep_cancelled e then Some CancelledError else None, Stored (item_id newest),
              ?logged @ [WriteMarker (item_id newest), Sleep 7200])"
    using assms(1) l by (rule scan_body_seed) (use assms(2) in auto)
  have it: "scan_iteration e mf =
           (if sleep_cancelled e then Stop else Next, Stored (item_id newest),
            ?logged @ [WriteMarker (item_id newest), Sleep 7200])"
  proof (cases "sleep_cancelled e")
    case True
    then show ?thesis using b scan_iteration_body_cancelled by simp
  next
    case False
    then show ?thesis using b scan_iteration_body_ends by simp
  qed
  have a: "announced (snd (snd (scan_iteration e mf))) = []"
    and d: "delivered (snd (snd (scan_iteration e mf))) = []"
    unfolding it by simp_all
  have n: "\<not> is_closed e \<and> \<not> sleep_cancelled e \<longrightarrow>
            scan_news (e # es) mf =
              (fst (scan_news es (Stored (item_id newest))),
               fst (snd (scan_news es (Stored (item_id newest)))),
               ?logged @ [WriteMarker (item_id newest), Sleep 7200]
                 @ snd (snd (scan_news es (Stored (item_id newest)))))"
  proof
    assume h: "\<not> is_closed e \<and> \<not> sleep_cancelled e"
    then have "scan_iteration e mf =
        (Next, Stored (item_id newest), ?logged @ [WriteMarker (item_id newest), Sleep 7200])"
      using it by simp
    with h show "scan_news (e # es) mf =
              (fst (scan_news es (Stored (item_id newest))),
               fst (snd (scan_news es (Stored (item_id newest)))),
               ?logged @ [WriteMarker (item_id newest), Sleep 7200]
                 @ snd (snd (scan_news es (Stored (item_id newest)))))"
      using scan_news_next [of e mf "Stored (item_id newest)"
          "?logged @ [WriteMarker (item_id newest), Sleep 7200]" es]
      by simp
  qed
  show ?thesis using it a d n by blast
qed

text \<open>With the directory there, no marker file and the sample feed, the marker
  becomes 6 and nothing is announced; the pass after it finds item 6 first and
  announces nothing either.\<close>

theorem scan_news_seeds_marker_witness:
  "get_recent_news sample_env = Inr (Some sample_feed)
   \<and> item_id (hd sample_feed) = 6
   \<and> \<not> is_closed sample_env \<and> \<not> sleep_cancelled sample_env
   \<and> scan_iteration sample_env NoFile
        = (Next, Stored 6, [LogNoLastArticle, WriteMarker 6, Sleep 7200])
   \<and> scan_iteration sample_env (Stored 0) = (Next, Stored 6, [WriteMarker 6, Sleep 7200])
   \<and> announced (snd (snd (scan_iteration sample_env Unparsable))) = []
   \<and> scan_news [sample_env, sample_env] NoFile
        = (Running, Stored 6,
           [LogNoLastArticle, WriteMarker 6, Sleep 7200, WriteMarker 6, Sleep 7200])"
proof -
  let ?i6 = "\<lparr>item_id = 6, item_date = 99\<rparr>"
  let ?rest = "[\<lparr>item_id = 5, item_date = 98\<rparr>, \<lparr>item_id = 4, item_date = 91\<rparr>,
      \<lparr>item_id = 3, item_date = 80\<rparr>]"
  have feed: "get_recent_news sample_env = Inr (Some (?i6 # ?rest))"
    by (simp add: sample_env_def sample_feed_def)
  have sf: "sample_feed = ?i6 # ?rest" by (simp add: sample_feed_def)
  have flags: "\<not> is_closed sample_env" "\<not> sleep_cancelled sample_env"
    by (simp_all add: sample_env_def)
  have second: "scan_news [sample_env] (Stored 6) = (Running, Stored 6, [WriteMarker 6, Sleep 7200])"
    by (simp add: sample_env_def sample_feed_def scan_iteration_def scan_body_def
        load_last_id_def read_marker_def write_marker_def sleep_def Let_def)
  have r1: "scan_iteration sample_env NoFile
        = (Next, Stored 6, [LogNoLastArticle, WriteMarker 6, Sleep 7200])"
    using scan_news_seeds_marker [OF feed, of NoFile] flags by simp
  have r2: "scan_iteration sample_env (Stored 0) = (Next, Stored 6, [WriteMarker 6, Sleep 7200])"
    using scan_news_seeds_marker [OF feed, of "Stored 0"] flags by simp
  have r3: "announced (snd (snd (scan_iteration sample_env Unparsable))) = []"
    using scan_news_seeds_marker [OF feed, of Unparsable] by simp
  have r4: "scan_news [sample_env, sample_env] NoFile
        = (Running, Stored 6,
           [LogNoLastArticle, WriteMarker 6, Sleep 7200, WriteMarker 6, Sleep 7200])"
    using scan_news_seeds_marker [OF feed, of NoFile "[sample_env]"] flags second by simp
  show ?thesis unfolding sf using feed flags r1 r2 r3 r4 by simp
qed

text \<open>When the directory \<^verbatim>\<open>data\<close> is missing, the marker file is missing too: the read
  raises \<^verbatim>\<open>FileNotFoundError\<close>, which is caught, and so does the \<^verbatim>\<open>open\<close> of line 1928,
  which is not. No marker is written; the exception is logged and the next pass does
  the same, with no sleep between them.\<close>

theorem scan_news_seeds_marker_counterexample:
  "get_recent_news sample_env = Inr (Some sample_feed)
   \<and> read_marker NoDirectory = Inl FileNotFoundError
   \<and> scan_iteration sample_env NoDirectory
        = (Next, NoDirectory, [LogNoLastArticle, LogException FileNotFoundError])
   \<and> scan_news [sample_env, sample_env] NoDirectory
        = (Running, NoDirectory,
           [LogNoLastArticle, LogException FileNotFoundError,
            LogNoLastArticle, LogException FileNotFoundError])"
  by (simp add: sample_env_def sample_feed_def scan_iteration_def scan_body_def
      load_last_id_def read_marker_def write_marker_def Let_def)

lemma send_guilds_failure_skipped:
  assumes "news_channel g \<noteq> 0"
    and "channel_send e (guild_id g) a = Some Forbidden
         \<or> channel_send e (guild_id g) a = Some HTTPException"
  shows "send_guilds e a (g # gs) =
           (fst (send_guilds e a gs), LogWarning (warning_of e a g) # snd (send_guilds e a gs))"
  using assms by (auto simp add: send_one_def warning_of_def)

text \<open>
  C9. A \<^verbatim>\<open>channel.send\<close> that fails with \<^verbatim>\<open>Forbidden\<close> or \<^verbatim>\<open>HTTPException\<close> logs its
  warning, and the loop over the guilds goes on with the remaining guilds exactly
  as it would without that guild. In a pass that announces a batch, when every
  \<^verbatim>\<open>channel.send\<close> to a guild with a news channel is delivered or fails in one of
  these two ways: every article of the batch is announced, in order; each article is
  delivered to every guild with a news channel whose own send succeeds, whatever
  failed before it; each failed send logs its warning; and the pass ends with the
  two-hour sleep, back at the loop test.
\<close>

theorem scan_news_delivery_failures:
  assumes "get_recent_news e = Inr (Some (newest # rest))"
    and "m \<noteq> 0"
    and "collect e m (newest # rest) [] = Inr batch"
    and "deliveries_handled e batch"
  shows "fst (scan_iteration e (Stored m)) = (if sleep_cancelled e then Stop else Next)
       \<and> announced (snd (snd (scan_iteration e (Stored m)))) = map article_id batch
       \<and> delivered (snd (snd (scan_iteration e (Stored m))))
           = concat (map (\<lambda>a. map (\<lambda>g. (guild_id g, article_id a)) (reached e a)) batch)
       \<and> warnings (snd (snd (scan_iteration e (Stored m))))
           = concat (map (\<lambda>a. map (warning_of e a) (failed e a)) batch)
       \<and> last (snd (snd (scan_iteration e (Stored m)))) = Sleep 7200
       \<and> (news_channel g \<noteq> 0
            \<and> (channel_send e' (guild_id g) a = Some Forbidden
                 \<or> channel_send e' (guild_id g) a = Some HTTPException)
            \<longrightarrow> send_guilds e' a (g # gs) =
                  (fst (send_guilds e' a gs),
                   LogWarning (warning_of e' a g) # snd (send_guilds e' a gs)))"
proof -
  have it: "scan_iteration e (Stored m) =
           (if sleep_cancelled e then Stop else Next, Stored (item_id newest),
            WriteMarker (item_id newest) # snd (announce e batch) @ [Sleep 7200])"
    using assms by (rule scan_iteration_handled)
  have pass: "fst (scan_iteration e (Stored m)) = (if sleep_cancelled e then Stop else Next)
       \<and> announced (snd (snd (scan_iteration e (Stored m)))) = map article_id batch
       \<and> delivered (snd (snd (scan_iteration e (Stored m))))
           = concat (map (\<lambda>a. map (\<lambda>g. (guild_id g, article_id a)) (reached e a)) batch)
       \<and> warnings (snd (snd (scan_iteration e (Stored m))))
           = concat (map (\<lambda>a. map (warning_of e a) (failed e a)) batch)
       \<and> last (snd (snd (scan_iteration e (Stored m)))) = Sleep 7200"
    unfolding it using announce_handled [OF assms(4)] by simp
  have one: "news_channel g \<noteq> 0
            \<and> (channel_send e' (guild_id g) a = Some Forbidden
                 \<or> channel_send e' (guild_id g) a = Some HTTPException)
            \<longrightarrow> send_guilds e' a (g # gs) =
                  (fst (send_guilds e' a gs),
                   LogWarning (warning_of e' a g) # snd (send_guilds e' a gs))"
    using send_guilds_failure_skipped by blast
  show ?thesis using pass one by blast
qed

text \<open>Guild 1 forbids the send, guild 2 has no news channel, guild 3 receives both
  articles.\<close>

theorem scan_news_delivery_failures_witness:
  "get_recent_news (sample_env\<lparr>channel_send := send_forbidden_in_1\<rparr>) = Inr (Some sample_feed)
   \<and> (3::int) \<noteq> 0
   \<and> collect (sample_env\<lparr>channel_send := send_forbidden_in_1\<rparr>) 3 sample_feed []
        = Inr [\<lparr>article_id = 5, article_title = ''News''\<rparr>, \<lparr>article_id = 6, article_title = ''News''\<rparr>]
   \<and> deliveries_handled (sample_env\<lparr>channel_send := send_forbidden_in_1\<rparr>)
        [\<lparr>article_id = 5, article_title = ''News''\<rparr>, \<lparr>article_id = 6, article_title = ''News''\<rparr>]
   \<and> fst (scan_iteration (sample_env\<lparr>channel_send := send_forbidden_in_1\<rparr>) (Stored 3)) = Next
   \<and> announced (snd (snd (scan_iteration (sample_env\<lparr>channel_send := send_forbidden_in_1\<rparr>)
        (Stored 3)))) = [5, 6]
   \<and> delivered (snd (snd (scan_iteration (sample_env\<lparr>channel_send := send_forbidden_in_1\<rparr>)
        (Stored 3)))) = [(3, 5), (3, 6)]
   \<and> warnings (snd (snd (scan_iteration (sample_env\<lparr>channel_send := send_forbidden_in_1\<rparr>)
        (Stored 3))))
        = [''scan_news: Missing permissions.'', ''scan_news: Missing permissions.'']
   \<and> channel_send (sample_env\<lparr>channel_send := send_forbidden_in_1\<rparr>) 1
        \<lparr>article_id = 5, article_title = ''News''\<rparr> = Some Forbidden
   \<and> send_guilds (sample_env\<lparr>channel_send := send_forbidden_in_1\<rparr>)
        \<lparr>article_id = 5, article_title = ''News''\<rparr> sample_guilds
        = (None, [LogWarning ''scan_news: Missing permissions.'', Delivered 3 5])"
proof -
  let ?e = "sample_env\<lparr>channel_send := send_forbidden_in_1\<rparr>"
  let ?i6 = "\<lparr>item_id = 6, item_date = 99\<rparr>"
  let ?rest = "[\<lparr>item_id = 5, item_date = 98\<rparr>, \<lparr>item_id = 4, item_date = 91\<rparr>,
      \<lparr>item_id = 3, item_date = 80\<rparr>]"
  let ?batch = "[\<lparr>article_id = 5, article_title = ''News''\<rparr>,
      \<lparr>article_id = 6, article_title = ''News''\<rparr>]"
  have sf: "sample_feed = ?i6 # ?rest" by (simp add: sample_feed_def)
  have feed: "get_recent_news ?e = Inr (Some (?i6 # ?rest))"
    by (simp add: sample_env_def sample_feed_def)
  have m: "(3::int) \<noteq> 0" by simp
  have c: "collect ?e 3 (?i6 # ?rest) [] = Inr ?batch"
    by (simp add: sample_env_def fetch_all_def)
  have h: "deliveries_handled ?e ?batch"
    by (simp add: deliveries_handled_def sample_env_def sample_guilds_def send_forbidden_in_1_def)
  have re: "reached ?e \<lparr>article_id = 5, article_title = ''News''\<rparr> = [\<lparr>guild_id = 3, news_channel = 33\<rparr>]"
    "reached ?e \<lparr>article_id = 6, article_title = ''News''\<rparr> = [\<lparr>guild_id = 3, news_channel = 33\<rparr>]"
    "failed ?e \<lparr>article_id = 5, article_title = ''News''\<rparr> = [\<lparr>guild_id = 1, news_channel = 11\<rparr>]"
    "failed ?e \<lparr>article_id = 6, article_title = ''News''\<rparr> = [\<lparr>guild_id = 1, news_channel = 11\<rparr>]"
    by (simp_all add: reached_def failed_def sample_env_def sample_guilds_def send_forbidden_in_1_def)
  have w: "warning_of ?e a \<lparr>guild_id = 1, news_channel = 11\<rparr> = ''scan_news: Missing permissions.''"
    for a
    by (simp add: warning_of_def sample_env_def send_forbidden_in_1_def)
  have nc: "\<not> sleep_cancelled ?e" by (simp add: sample_env_def)
  let ?g1 = "\<lparr>guild_id = 1, news_channel = 11\<rparr>"
  let ?gs = "[\<lparr>guild_id = 2, news_channel = 0\<rparr>, \<lparr>guild_id = 3, news_channel = 33\<rparr>]"
  let ?a5 = "\<lparr>article_id = 5, article_title = ''News''\<rparr>"
  have sg: "sample_guilds = ?g1 # ?gs" by (simp add: sample_guilds_def)
  have f1: "channel_send ?e 1 ?a5 = Some Forbidden"
    by (simp add: sample_env_def send_forbidden_in_1_def)
  have others: "send_guilds ?e ?a5 ?gs = (None, [Delivered 3 5])"
    by (simp add: send_one_def sample_env_def send_forbidden_in_1_def)
  note t = scan_news_delivery_failures [OF feed m c h, of ?g1 ?e ?a5 ?gs]
  have "send_guilds ?e ?a5 (?g1 # ?gs) =
          (fst (send_guilds ?e ?a5 ?gs), LogWarning (warning_of ?e ?a5 ?g1) # snd (send_guilds ?e ?a5 ?gs))"
    using t f1 by (simp del: send_guilds.simps collect.simps)
  then have local: "send_guilds ?e ?a5 sample_guilds
        = (None, [LogWarning ''scan_news: Missing permissions.'', Delivered 3 5])"
    unfolding sg others by (simp add: w del: send_guilds.simps)
  have r: "fst (scan_iteration ?e (Stored 3)) = Next"
    "announced (snd (snd (scan_iteration ?e (Stored 3)))) = [5, 6]"
    "delivered (snd (snd (scan_iteration ?e (Stored 3)))) = [(3, 5), (3, 6)]"
    "warnings (snd (snd (scan_iteration ?e (Stored 3))))
        = [''scan_news: Missing permissions.'', ''scan_news: Missing permissions.'']"
    using t nc by (simp_all add: re w del: send_guilds.simps collect.simps)
  show ?thesis unfolding sf using feed m c h r f1 local by (simp del: collect.simps send_guilds.simps)
qed

lemma and_then_sleep_emissions:
  "announced (snd (and_then s (sleep e n))) = announced (snd s)"
  "delivered (snd (and_then s (sleep e n))) = delivered (snd s)"
proof -
  show "announced (snd (and_then s (sleep e n))) = announced (snd s)"
    by (cases "fst s") (simp_all add: and_then_def)
  show "delivered (snd (and_then s (sleep e n))) = delivered (snd s)"
    by (cases "fst s") (simp_all add: and_then_def)
qed

text \<open>
  C3. In a pass that fetches a feed with at least one item, finds a
  marker other than 0 and whose walk over the feed raises nothing, the id of the
  newest item is written as the marker, also when the batch is empty; the write is
  the first event of the pass, before every announcement and delivery of the batch.
\<close>

theorem scan_news_persists_marker:
  assumes "get_recent_news e = Inr (Some (newest # rest))"
    and "m \<noteq> 0"
    and "collect e m (newest # rest) [] = Inr batch"
  shows "fst (snd (scan_iteration e (Stored m))) = Stored (item_id newest)
       \<and> (\<exists>evs. snd (snd (scan_iteration e (Stored m))) = WriteMarker (item_id newest) # evs
              \<and> announced evs = announced (snd (announce e batch))
              \<and> delivered evs = delivered (snd (announce e batch)))
       \<and> (batch = [] \<longrightarrow>
             snd (snd (scan_iteration e (Stored m))) = [WriteMarker (item_id newest), Sleep 7200])"
proof -
  let ?s = "and_then (announce e batch) (sleep e 7200)"
  have b: "scan_body e (Stored m) =
             (fst ?s, Stored (item_id newest), WriteMarker (item_id newest) # snd ?s)"
    using assms by (rule scan_body_past_seed)
  obtain tail where t: "fst (snd (scan_iteration e (Stored m))) = Stored (item_id newest)"
    "snd (snd (scan_iteration e (Stored m))) = (WriteMarker (item_id newest) # snd ?s) @ tail"
    "announced tail = []" "delivered tail = []"
    using scan_iteration_of_body [OF b] by blast
  have ev: "snd (snd (scan_iteration e (Stored m))) = WriteMarker (item_id newest) # (snd ?s @ tail)"
    using t(2) by simp
  have an: "announced (snd ?s @ tail) = announced (snd (announce e batch))"
    and de: "delivered (snd ?s @ tail) = delivered (snd (announce e batch))"
    using t(3,4) by (simp_all add: and_then_sleep_emissions)
  have empty: "batch = [] \<longrightarrow>
     snd (snd (scan_iteration e (Stored m))) = [WriteMarker (item_id newest), Sleep 7200]"
  proof
    assume "batch = []"
    then have "scan_body e (Stored m) =
        (if sleep_cancelled e then Some CancelledError else None, Stored (item_id newest),
         [WriteMarker (item_id newest), Sleep 7200])"
      using b by simp
    then show "snd (snd (scan_iteration e (Stored m))) = [WriteMarker (item_id newest), Sleep 7200]"
      by (simp add: scan_iteration_def)
  qed
  show ?thesis using t(1) ev an de empty by blast
qed

text \<open>With the marker 6 and the sample feed nothing is new and 6 is written again;
  with the marker 3 the write comes first.\<close>

theorem scan_news_persists_marker_witness:
  "get_recent_news sample_env = Inr (Some sample_feed)
   \<and> (6::int) \<noteq> 0 \<and> collect sample_env 6 sample_feed [] = Inr []
   \<and> scan_iteration sample_env (Stored 6) = (Next, Stored 6, [WriteMarker 6, Sleep 7200])
   \<and> collect sample_env 3 sample_feed []
        = Inr [\<lparr>article_id = 5, article_title = ''News''\<rparr>, \<lparr>article_id = 6, article_title = ''News''\<rparr>]
   \<and> fst (snd (scan_iteration sample_env (Stored 3))) = Stored 6
   \<and> hd (snd (snd (scan_iteration sample_env (Stored 3)))) = WriteMarker 6"
proof -
  let ?i6 = "\<lparr>item_id = 6, item_date = 99\<rparr>"
  let ?rest = "[\<lparr>item_id = 5, item_date = 98\<rparr>, \<lparr>item_id = 4, item_date = 91\<rparr>,
      \<lparr>item_id = 3, item_date = 80\<rparr>]"
  let ?batch = "[\<lparr>article_id = 5, article_title = ''News''\<rparr>,
      \<lparr>article_id = 6, article_title = ''News''\<rparr>]"
  have sf: "sample_feed = ?i6 # ?rest" by (simp add: sample_feed_def)
  have feed: "get_recent_news sample_env = Inr (Some (?i6 # ?rest))"
    by (simp add: sample_env_def sample_feed_def)
  have m6: "(6::int) \<noteq> 0" and m3: "(3::int) \<noteq> 0" by simp_all
  have c6: "collect sample_env 6 (?i6 # ?rest) [] = Inr []" by simp
  have c3: "collect sample_env 3 (?i6 # ?rest) [] = Inr ?batch"
    by (simp add: sample_env_def fetch_all_def)
  have ctl: "fst (scan_iteration sample_env (Stored 6)) = Next"
    by (simp add: sample_env_def sample_feed_def scan_iteration_def scan_body_def
        load_last_id_def read_marker_def write_marker_def sleep_def Let_def)
  have r6: "fst (snd (scan_iteration sample_env (Stored 6))) = Stored 6"
    "snd (snd (scan_iteration sample_env (Stored 6))) = [WriteMarker 6, Sleep 7200]"
    using scan_news_persists_marker [OF feed m6 c6] by simp_all
  have r3: "fst (snd (scan_iteration sample_env (Stored 3))) = Stored 6"
    "hd (snd (snd (scan_iteration sample_env (Stored 3)))) = WriteMarker 6"
    using scan_news_persists_marker [OF feed m3 c3] by auto
  have it6: "scan_iteration sample_env (Stored 6) = (Next, Stored 6, [WriteMarker 6, Sleep 7200])"
    using ctl r6 by (cases "scan_iteration sample_env (Stored 6)") simp
  show ?thesis unfolding sf using feed c6 c3 it6 r3 by (simp del: collect.simps)
qed

text \<open>With the marker 3 and the sample feed the marker is written before article 5
  is announced, so announcements and deliveries follow the write; when
  \<^verbatim>\<open>get_news_article\<close> raises \<^verbatim>\<open>NetworkError\<close> during the walk, the marker is not
  written at all; nor is it when the feed fetched has no item.\<close>

theorem scan_news_persists_marker_counterexample:
  "scan_iteration sample_env (Stored 3)
     = (Next, Stored 6,
        [WriteMarker 6, LogAnnouncing 5, Delivered 1 5, Delivered 3 5,
         LogAnnouncing 6, Delivered 1 6, Delivered 3 6, Sleep 7200])
   \<and> list_ex is_emission (from_write (snd (snd (scan_iteration sample_env (Stored 3)))))
   \<and> scan_iteration (sample_env\<lparr>get_news_article := fetch_fails_at 5\<rparr>) (Stored 3)
        = (Next, Stored 3, [Sleep 30])
   \<and> scan_iteration (sample_env\<lparr>get_recent_news := Inr (Some [])\<rparr>) (Stored 3)
        = (Next, Stored 3, [LogException IndexError])"
  by (simp add: sample_env_def sample_feed_def fetch_fails_at_def fetch_all_def
      scan_iteration_def scan_body_def load_last_id_def read_marker_def write_marker_def sample_guilds_def
      send_ok_def send_one_def sleep_def from_write_def Let_def)

text \<open>
  C4. An exception other than \<^verbatim>\<open>CancelledError\<close> that leaves the body
  of a pass is caught. A \<^verbatim>\<open>NetworkError\<close> is not logged and is followed by a sleep of
  30 seconds, after which the pass is back at the loop test (unless the task is
  cancelled in that sleep); any other exception is logged and the pass is back at
  the loop test. The loop then goes on with its next pass. The loop ends only when
  the bot is closed at the loop test or by cancellation.
\<close>

theorem scan_news_exceptions:
  assumes "scan_body e mf = (Some x, mf', evs)" and "x \<noteq> CancelledError"
  shows "(x = NetworkError \<longrightarrow>
            scan_iteration e mf =
              (if sleep_cancelled e then Escaped CancelledError else Next, mf', evs @ [Sleep 30]))
       \<and> (x \<noteq> NetworkError \<longrightarrow>
            fst (scan_iteration e mf) = Next
            \<and> LogException x \<in> set (snd (snd (scan_iteration e mf))))
       \<and> (\<not> is_closed e \<and> \<not> sleep_cancelled e \<longrightarrow>
            (\<exists>tail. scan_news (e # es) mf =
               (fst (scan_news es mf'), fst (snd (scan_news es mf')),
                evs @ tail @ snd (snd (scan_news es mf')))))
       \<and> fst (scan_news script mf0) \<in> {Running, Closed, Cancelled, Raised CancelledError}"
proof -
  have n: "x = NetworkError \<longrightarrow>
            scan_iteration e mf =
              (if sleep_cancelled e then Escaped CancelledError else Next, mf', evs @ [Sleep 30])"
    using assms by (simp add: scan_iteration_def sleep_def)
  have o: "x \<noteq> NetworkError \<longrightarrow> scan_iteration e mf = (Next, mf', evs @ [LogException x])"
    using assms by (simp add: scan_iteration_def)
  have o': "x \<noteq> NetworkError \<longrightarrow>
            fst (scan_iteration e mf) = Next
            \<and> LogException x \<in> set (snd (snd (scan_iteration e mf)))"
    using o by simp
  have l: "\<not> is_closed e \<and> \<not> sleep_cancelled e \<longrightarrow>
            (\<exists>tail. scan_news (e # es) mf =
               (fst (scan_news es mf'), fst (snd (scan_news es mf')),
                evs @ tail @ snd (snd (scan_news es mf'))))"
  proof
    assume h: "\<not> is_closed e \<and> \<not> sleep_cancelled e"
    define tail where "tail = (if x = NetworkError then [Sleep 30] else [LogException x])"
    have "scan_iteration e mf = (Next, mf', evs @ tail)"
      using n o h by (simp add: tail_def)
    then have "scan_news (e # es) mf =
               (fst (scan_news es mf'), fst (snd (scan_news es mf')),
                (evs @ tail) @ snd (snd (scan_news es mf')))"
      using h scan_news_next by blast
    then show "\<exists>tail. scan_news (e # es) mf =
               (fst (scan_news es mf'), fst (snd (scan_news es mf')),
                evs @ tail @ snd (snd (scan_news es mf')))"
      by auto
  qed
  show ?thesis using n o' l scan_news_result by blast
qed

text \<open>A \<^verbatim>\<open>NetworkError\<close> of \<^verbatim>\<open>get_recent_news\<close> and the \<^verbatim>\<open>IndexError\<close> of an empty
  feed.\<close>

theorem scan_news_exceptions_witness:
  "scan_body (sample_env\<lparr>get_recent_news := Inl NetworkError\<rparr>) (Stored 3)
     = (Some NetworkError, Stored 3, [])
   \<and> NetworkError \<noteq> CancelledError
   \<and> scan_iteration (sample_env\<lparr>get_recent_news := Inl NetworkError\<rparr>) (Stored 3)
        = (Next, Stored 3, [Sleep 30])
   \<and> scan_body (sample_env\<lparr>get_recent_news := Inr (Some [])\<rparr>) (Stored 3)
        = (Some IndexError, Stored 3, [])
   \<and> IndexError \<noteq> CancelledError \<and> IndexError \<noteq> NetworkError
   \<and> fst (scan_iteration (sample_env\<lparr>get_recent_news := Inr (Some [])\<rparr>) (Stored 3)) = Next
   \<and> LogException IndexError
        \<in> set (snd (snd (scan_iteration (sample_env\<lparr>get_recent_news := Inr (Some [])\<rparr>) (Stored 3))))"
proof -
  let ?n = "sample_env\<lparr>get_recent_news := Inl NetworkError\<rparr>"
  let ?i = "sample_env\<lparr>get_recent_news := Inr (Some [])\<rparr>"
  have bn: "scan_body ?n (Stored 3) = (Some NetworkError, Stored 3, [])"
    by (simp add: scan_body_def sample_env_def)
  have bi: "scan_body ?i (Stored 3) = (Some IndexError, Stored 3, [])"
    by (simp add: scan_body_def sample_env_def)
  have d: "NetworkError \<noteq> CancelledError" "IndexError \<noteq> CancelledError"
    "IndexError \<noteq> NetworkError"
    by simp_all
  have nc: "\<not> sleep_cancelled ?n" by (simp add: sample_env_def)
  have rn: "scan_iteration ?n (Stored 3) = (Next, Stored 3, [Sleep 30])"
    using scan_news_exceptions [OF bn d(1)] nc by simp
  have ri: "fst (scan_iteration ?i (Stored 3)) = Next"
    "LogException IndexError \<in> set (snd (snd (scan_iteration ?i (Stored 3))))"
    using scan_news_exceptions [OF bi d(2)] d(3) by blast+
  show ?thesis using bn bi d rn ri by blast
qed

text \<open>A \<^verbatim>\<open>NetworkError\<close> is followed by a sleep of 30 seconds and no log entry; the
  \<^verbatim>\<open>IndexError\<close> of an empty feed is logged and followed by no sleep; and the loop
  ends without cancellation when the bot is closed.\<close>

theorem scan_news_exceptions_counterexample:
  "scan_iteration (sample_env\<lparr>get_recent_news := Inl NetworkError\<rparr>) (Stored 3)
     = (Next, Stored 3, [Sleep 30])
   \<and> scan_iteration (sample_env\<lparr>get_recent_news := Inr (Some [])\<rparr>) (Stored 3)
        = (Next, Stored 3, [LogException IndexError])
   \<and> scan_news [sample_env\<lparr>is_closed := True\<rparr>] (Stored 3) = (Closed, Stored 3, [])"
  by (simp add: sample_env_def scan_iteration_def scan_body_def sleep_def)

subsection \<open>An item whose article is not found\<close>

lemma collect_fetched:
  assumes "collect e m items acc = Inr batch"
  shows "set batch \<subseteq> set acc
           \<union> {a. \<exists>i\<in>set items. get_news_article e (item_id i) = Inr (Some a)}"
  using assms
proof (induction items arbitrary: acc)
  case Nil
  then show ?case by auto
next
  case (Cons item items)
  show ?case
  proof (cases "item_id item = m \<or> today e - item_date item > 7")
    case True
    then have "collect e m (item # items) acc = Inr acc" by auto
    then have "batch = acc" using Cons.prems by simp
    then show ?thesis by auto
  next
    case False
    show ?thesis
    proof (cases "get_news_article e (item_id item)")
      case (Inl x)
      then show ?thesis using Cons.prems False by simp
    next
      case (Inr found)
      show ?thesis
      proof (cases found)
        case None
        then have "collect e m items acc = Inr batch"
          using Cons.prems False Inr by simp
        then show ?thesis using Cons.IH by fastforce
      next
        case (Some a)
        then have c: "collect e m items (a # acc) = Inr batch"
          using Cons.prems False Inr by simp
        show ?thesis using Cons.IH [OF c] Inr Some by auto
      qed
    qed
  qed
qed

lemma scan_iteration_announced:
  assumes "get_recent_news e = Inr (Some feed)"
  shows "set (announced (snd (snd (scan_iteration e (Stored m)))))
           \<subseteq> (case collect e m feed [] of Inl x \<Rightarrow> {} | Inr batch \<Rightarrow> article_id ` set batch)"
proof -
  obtain r mf' evs where b: "scan_body e (Stored m) = (r, mf', evs)"
    by (cases "scan_body e (Stored m)") auto
  obtain tail where t: "snd (snd (scan_iteration e (Stored m))) = evs @ tail" "announced tail = []"
    using scan_iteration_of_body [OF b] by blast
  have a: "announced (snd (snd (scan_iteration e (Stored m)))) = announced evs"
    using t by simp
  show ?thesis
  proof (cases feed)
    case Nil
    then have "evs = []" using assms b by (simp add: scan_body_def)
    then show ?thesis using a by simp
  next
    case (Cons newest rest)
    then have feed: "get_recent_news e = Inr (Some (newest # rest))" using assms by simp
    show ?thesis
    proof (cases "m = 0")
      case True
      have "load_last_id (Stored m) = Inr (0, [])" using True by (simp add: load_last_id_cases)
      then have "evs = [] @ [WriteMarker (item_id newest), Sleep 7200]"
        using scan_body_seed [OF feed, of "Stored m" "[]"] b by simp
      then show ?thesis using a by simp
    next
      case False
      show ?thesis
      proof (cases "collect e m (newest # rest) []")
        case (Inl x)
        then have "evs = []" using scan_body_walk_raises [OF feed False Inl] b by simp
        then show ?thesis using a by simp
      next
        case (Inr batch)
        have "evs = WriteMarker (item_id newest) # snd (and_then (announce e batch) (sleep e 7200))"
          using scan_body_past_seed [OF feed False Inr] b by simp
        then have "announced evs = announced (snd (announce e batch))"
          by (simp add: and_then_sleep_emissions)
        then show ?thesis
          using a Inr Cons announce_announced_subset [of e batch] by simp
      qed
    qed
  qed
qed

text \<open>
  C10. When \<^verbatim>\<open>get_news_article\<close> returns \<^verbatim>\<open>None\<close> for a feed item whose id is not the
  marker and that is at most 7 days old, and the walk of that pass raises nothing:
  the batch is the batch of the feed without that item, and the pass writes the id
  of the newest item of the feed as the marker. In a later pass, whatever the marker
  is by then, if the feed lists the item whose id is that marker, every article
  announced was returned by \<^verbatim>\<open>get_news_article\<close> for an item listed ahead of it; so
  the omitted item is not announced unless it is listed ahead of the marker's item.
\<close>

theorem scan_news_skipped_article:
  assumes "get_recent_news e = Inr (Some (pre @ x # post))"
    and "item_id x \<noteq> m" and "age e x \<le> 7" and "m \<noteq> 0"
    and "get_news_article e (item_id x) = Inr None"
    and "collect e m (pre @ x # post) [] = Inr batch"
    and "get_recent_news e' = Inr (Some (pre' @ mk # post'))"
    and "item_id mk = m'"
  shows "collect e m (pre @ post) [] = Inr batch
       \<and> fst (snd (scan_iteration e (Stored m))) = Stored (item_id (hd (pre @ x # post)))
       \<and> set (announced (snd (snd (scan_iteration e' (Stored m')))))
           \<subseteq> article_id ` {a. \<exists>i\<in>set pre'. get_news_article e' (item_id i) = Inr (Some a)}"
proof -
  have omitted: "collect e m (pre @ post) [] = Inr batch"
    using collect_skips [OF assms(5,2,3), of pre post "[]"] assms(6) by simp
  obtain newest rest where nr: "pre @ x # post = newest # rest"
    by (cases "pre @ x # post") auto
  have feed: "get_recent_news e = Inr (Some (newest # rest))"
    using assms(1) nr by simp
  have c: "collect e m (newest # rest) [] = Inr batch"
    using assms(6) nr by simp
  have b: "scan_body e (Stored m) =
             (fst (and_then (announce e batch) (sleep e 7200)), Stored (item_id newest),
              WriteMarker (item_id newest) # snd (and_then (announce e batch) (sleep e 7200)))"
    using feed assms(4) c by (rule scan_body_past_seed)
  have written: "fst (snd (scan_iteration e (Stored m))) = Stored (item_id (hd (pre @ x # post)))"
    using scan_iteration_of_body [OF b] nr by simp
  have stop: "collect e' m' (pre' @ mk # post') [] = collect e' m' pre' []"
    using assms(8) by (simp add: collect_stops)
  have later: "set (announced (snd (snd (scan_iteration e' (Stored m')))))
           \<subseteq> article_id ` {a. \<exists>i\<in>set pre'. get_news_article e' (item_id i) = Inr (Some a)}"
  proof (cases "collect e' m' pre' []")
    case (Inl y)
    then show ?thesis
      using scan_iteration_announced [OF assms(7), of m'] stop by simp
  next
    case (Inr batch')
    have "set batch' \<subseteq> {a. \<exists>i\<in>set pre'. get_news_article e' (item_id i) = Inr (Some a)}"
      using collect_fetched [OF Inr] by simp
    moreover have "set (announced (snd (snd (scan_iteration e' (Stored m')))))
                     \<subseteq> article_id ` set batch'"
      using scan_iteration_announced [OF assms(7), of m'] stop Inr by simp
    ultimately show ?thesis by blast
  qed
  show ?thesis using omitted written later by blast
qed

text \<open>Article 5 is not found on day 100: article 6 alone is announced and the marker
  becomes 6. On day 101 the feed lists item 7 ahead of item 6: article 7 alone is
  announced.\<close>

theorem scan_news_skipped_article_witness:
  "get_recent_news (sample_env\<lparr>get_news_article := fetch_none_at 5\<rparr>) = Inr (Some sample_feed)
   \<and> item_id (sample_feed ! 1) = 5 \<and> age (sample_env\<lparr>get_news_article := fetch_none_at 5\<rparr>) (sample_feed ! 1) = 2
   \<and> get_news_article (sample_env\<lparr>get_news_article := fetch_none_at 5\<rparr>) 5 = Inr None
   \<and> collect (sample_env\<lparr>get_news_article := fetch_none_at 5\<rparr>) 3 sample_feed []
        = Inr [\<lparr>article_id = 6, article_title = ''News''\<rparr>]
   \<and> get_recent_news (sample_env\<lparr>get_recent_news := Inr (Some next_feed), today := 101\<rparr>)
        = Inr (Some next_feed)
   \<and> map item_id next_feed = [7, 6, 5, 4, 3]
   \<and> fst (snd (scan_iteration (sample_env\<lparr>get_news_article := fetch_none_at 5\<rparr>) (Stored 3)))
        = Stored 6
   \<and> 5 \<notin> set (announced (snd (snd (scan_iteration
        (sample_env\<lparr>get_recent_news := Inr (Some next_feed), today := 101\<rparr>) (Stored 6)))))"
proof -
  let ?e = "sample_env\<lparr>get_news_article := fetch_none_at 5\<rparr>"
  let ?e' = "sample_env\<lparr>get_recent_news := Inr (Some next_feed), today := 101\<rparr>"
  let ?i7 = "\<lparr>item_id = 7, item_date = 101\<rparr>"
  let ?i6 = "\<lparr>item_id = 6, item_date = 99\<rparr>"
  let ?i5 = "\<lparr>item_id = 5, item_date = 98\<rparr>"
  let ?i4 = "\<lparr>item_id = 4, item_date = 91\<rparr>"
  let ?i3 = "\<lparr>item_id = 3, item_date = 80\<rparr>"
  have sf: "sample_feed = [?i6] @ ?i5 # [?i4, ?i3]" by (simp add: sample_feed_def)
  have nf: "next_feed = [?i7] @ ?i6 # [?i5, ?i4, ?i3]" by (simp add: next_feed_def)
  have feed: "get_recent_news ?e = Inr (Some ([?i6] @ ?i5 # [?i4, ?i3]))"
    by (simp add: sample_env_def sample_feed_def)
  have x: "item_id ?i5 \<noteq> 3" "age ?e ?i5 \<le> 7" "(3::int) \<noteq> 0"
    by (simp_all add: age_def sample_env_def)
  have none: "get_news_article ?e (item_id ?i5) = Inr None"
    by (simp add: sample_env_def fetch_none_at_def)
  have c: "collect ?e 3 ([?i6] @ ?i5 # [?i4, ?i3]) [] = Inr [\<lparr>article_id = 6, article_title = ''News''\<rparr>]"
    by (simp add: sample_env_def fetch_none_at_def fetch_all_def)
  have feed': "get_recent_news ?e' = Inr (Some ([?i7] @ ?i6 # [?i5, ?i4, ?i3]))"
    by (simp add: sample_env_def next_feed_def)
  have mk: "item_id ?i6 = 6" by simp
  have ahead: "{a. \<exists>i\<in>set [?i7]. get_news_article ?e' (item_id i) = Inr (Some a)}
                 = {\<lparr>article_id = 7, article_title = ''News''\<rparr>}"
    by (auto simp add: sample_env_def fetch_all_def)
  note t = scan_news_skipped_article [OF feed x none c feed' mk]
  have r1: "fst (snd (scan_iteration ?e (Stored 3))) = Stored 6"
    using t by (simp del: collect.simps)
  have "set (announced (snd (snd (scan_iteration ?e' (Stored 6))))) \<subseteq> {7}"
    using t unfolding ahead by (simp del: collect.simps)
  then have r2: "5 \<notin> set (announced (snd (snd (scan_iteration ?e' (Stored 6)))))"
    by auto
  have a: "age ?e (sample_feed ! 1) = 2" "item_id (sample_feed ! 1) = 5"
    by (simp_all add: sample_feed_def age_def sample_env_def)
  have none5: "get_news_article ?e 5 = Inr None" using none by simp
  have c': "collect ?e 3 sample_feed [] = Inr [\<lparr>article_id = 6, article_title = ''News''\<rparr>]"
    unfolding sf by (rule c)
  have feed0: "get_recent_news ?e = Inr (Some sample_feed)" by (simp add: sample_env_def)
  have feed1: "get_recent_news ?e' = Inr (Some next_feed)" by simp
  have ids7: "map item_id next_feed = [7, 6, 5, 4, 3]" by (simp add: next_feed_def)
  show ?thesis using feed0 a none5 c' feed1 ids7 r1 r2 by blast
qed

text \<open>When \<^verbatim>\<open>get_news_article\<close> returns \<^verbatim>\<open>None\<close> for article 6 and raises
  \<^verbatim>\<open>NetworkError\<close> for article 5 in the same pass, the marker stays 3, and the next
  pass announces article 6. When article 5 is not found, the marker becomes 6; if
  item 6 is then withdrawn from the feed, the next pass walks on to item 5 and
  announces article 5.\<close>

theorem scan_news_skipped_article_counterexample:
  "scan_news [sample_env\<lparr>get_news_article := fetch_none_6_fails_5\<rparr>, sample_env] (Stored 3)
     = (Running, Stored 6,
        [Sleep 30,
         WriteMarker 6, LogAnnouncing 5, Delivered 1 5, Delivered 3 5,
         LogAnnouncing 6, Delivered 1 6, Delivered 3 6, Sleep 7200])
   \<and> scan_news [sample_env\<lparr>get_news_article := fetch_none_at 5\<rparr>,
                 sample_env\<lparr>get_recent_news := Inr (Some later_feed), today := 101\<rparr>] (Stored 3)
        = (Running, Stored 7,
           [WriteMarker 6, LogAnnouncing 6, Delivered 1 6, Delivered 3 6, Sleep 7200,
            WriteMarker 7, LogAnnouncing 5, Delivered 1 5, Delivered 3 5,
            LogAnnouncing 7, Delivered 1 7, Delivered 3 7, Sleep 7200])"
  by (simp add: sample_env_def sample_feed_def later_feed_def fetch_none_6_fails_5_def
      fetch_none_at_def fetch_all_def scan_iteration_def scan_body_def load_last_id_def
      read_marker_def write_marker_def sample_guilds_def send_ok_def send_one_def sleep_def Let_def)

end
